theory Spec2Isabelle
  imports Complex_Main "HOL-Library.AList"
begin

chapter \<open>The embedding\<close>

section \<open>Errors\<close>

text \<open>The Python exceptions that the modelled functions can raise.\<close>

datatype py_error =
    ValueError | TypeError | KeyError | AttributeError | FileNotFoundError | UpstreamError

section \<open>Batcher (\<open>utils/quiz_generator.py\<close>, \<open>utils/notes_generator.py\<close>)\<close>

text \<open>
  \<^verbatim>\<open>"\n\n--- SECTION ---\n\n"\<close>, the separator of \<open>batch_chunks\<close>.
\<close>

definition SECTION_SEP :: string where
  "SECTION_SEP = [CHR 0x0A, CHR 0x0A] @ ''--- SECTION ---'' @ [CHR 0x0A, CHR 0x0A]"

text \<open>Python's \<open>sep.join(xs)\<close> on a list of strings.\<close>

fun join :: "string \<Rightarrow> string list \<Rightarrow> string" where
  "join sep [] = []"
| "join sep [x] = x"
| "join sep (x # y # ys) = x @ sep @ join sep (y # ys)"

text \<open>
  The loop \<open>for i in range(0, len(chunks), batch_size)\<close> for a positive step: \<open>i\<close> is the
  loop variable, \<open>batches\<close> the list built so far; the slice \<open>chunks[i:i + batch_size]\<close> is
  \<open>take batch_size (drop i chunks)\<close>.
\<close>

function batch_loop :: "string list \<Rightarrow> nat \<Rightarrow> nat \<Rightarrow> string list \<Rightarrow> string list" where
  "batch_loop chunks batch_size i batches =
     (if 0 < batch_size \<and> i < length chunks
      then batch_loop chunks batch_size (i + batch_size)
             (batches @ [join SECTION_SEP (take batch_size (drop i chunks))])
      else batches)"
  by pat_completeness auto
termination
  by (relation "measure (\<lambda>(chunks, batch_size, i, batches). length chunks - i)") auto

declare batch_loop.simps [simp del]

text \<open>
  \<open>batch_chunks\<close>: \<open>range\<close> raises \<open>ValueError\<close> for step 0 and is empty for a negative step
  (start 0, stop \<open>len(chunks) \<ge> 0\<close>).
\<close>

definition batch_chunks :: "string list \<Rightarrow> int \<Rightarrow> py_error + string list" where
  "batch_chunks chunks batch_size =
     (if batch_size = 0 then Inl ValueError
      else if batch_size < 0 then Inr []
      else Inr (batch_loop chunks (nat batch_size) 0 []))"

text \<open>
  Auxiliary, for stating and proving the grouping: the consecutive groups of \<open>n\<close> elements
  of a list (the last one possibly shorter).
\<close>

function chop :: "nat \<Rightarrow> 'a list \<Rightarrow> 'a list list" where
  "chop n xs = (if 0 < n \<and> xs \<noteq> [] then take n xs # chop n (drop n xs) else [])"
  by pat_completeness auto
termination
  by (relation "measure (\<lambda>(n, xs). length xs)") auto

declare chop.simps [simp del]

section \<open>Deduplicator (\<open>utils/quiz_generator.py\<close>, \<open>utils/notes_generator.py\<close>)\<close>

text \<open>
  \<open>similarities\<close> stands for what scikit-learn computes from the chunks, a parameter here:
  the matrix that \<open>cosine_similarity\<close> returns for their TF-IDF vectors, of one row and one
  column per chunk, so that \<open>similarities[i][j]\<close> is read in range, or the exception that
  \<open>TfidfVectorizer.fit_transform\<close> raises (\<open>ValueError\<close> when no chunk has a token of two
  characters). The entries are floating-point numbers, taken here as the reals they denote:
  an entry for two equal chunks is 1.0 or a float next to it, above or below, as the
  rounding falls.

  The inner loop \<open>for j in range(i + 1, len(chunks))\<close>, which adds \<open>j\<close> to \<open>seen\<close> when
  \<open>similarities[i][j] > threshold\<close>.
\<close>

definition mark_seen :: "real list list \<Rightarrow> real \<Rightarrow> nat \<Rightarrow> nat \<Rightarrow> nat set \<Rightarrow> nat set" where
  "mark_seen similarities threshold n i seen =
     fold (\<lambda>j s. if similarities ! i ! j > threshold then insert j s else s) [i + 1 ..< n] seen"

text \<open>One round of the outer loop on the state \<open>(keep_indices, seen)\<close>.\<close>

definition dedup_step :: "real list list \<Rightarrow> real \<Rightarrow> nat \<Rightarrow> nat \<Rightarrow> nat list \<times> nat set \<Rightarrow> nat list \<times> nat set" where
  "dedup_step similarities threshold n i st =
     (case st of (keep_indices, seen) \<Rightarrow>
        if i \<in> seen then (keep_indices, seen)
        else (keep_indices @ [i], mark_seen similarities threshold n i seen))"

text \<open>
  \<open>deduplicate_chunks\<close>: at most one chunk is returned as it is, before the vectorizer is
  called; an exception of the vectorizer is the exception of the call.
\<close>

definition deduplicate_chunks :: "'a list \<Rightarrow> py_error + real list list \<Rightarrow> real \<Rightarrow> py_error + 'a list" where
  "deduplicate_chunks chunks similarities threshold =
     (if length chunks \<le> 1 then Inr chunks
      else case similarities of
             Inl e \<Rightarrow> Inl e
           | Inr similarities \<Rightarrow>
               (let (keep_indices, seen) =
                      fold (dedup_step similarities threshold (length chunks)) [0 ..< length chunks] ([], {})
                in Inr (map (\<lambda>i. chunks ! i) keep_indices)))"

section \<open>JSON values\<close>

text \<open>
  The Python values that \<open>json.dump\<close> writes: \<open>None\<close>, booleans, numbers, strings, lists,
  tuples and dictionaries with string keys (dictionaries with other keys, which
  \<open>json.dump\<close> writes as strings, are left out). \<open>json.load\<close> returns such values without
  tuples. A dictionary is an association list that holds each key once. Numbers are taken
  in \<open>real\<close>.
\<close>

datatype json =
    JNull
  | JBool bool
  | JNum real
  | JStr string
  | JArr "json list"
  | JTuple "json list"
  | JObj "(string \<times> json) list"

text \<open>
  What \<open>json.load\<close> reads from the text that \<open>json.dump\<close> wrote for a value: a tuple is
  written as a list, at every depth; and the values that no tuple occurs in.
\<close>

primrec json_dumped :: "json \<Rightarrow> json" where
  "json_dumped JNull = JNull"
| "json_dumped (JBool b) = JBool b"
| "json_dumped (JNum x) = JNum x"
| "json_dumped (JStr s) = JStr s"
| "json_dumped (JArr xs) = JArr (map json_dumped xs)"
| "json_dumped (JTuple xs) = JArr (map json_dumped xs)"
| "json_dumped (JObj kvs) = JObj (map (map_prod id json_dumped) kvs)"

primrec tuple_free :: "json \<Rightarrow> bool" where
  "tuple_free JNull = True"
| "tuple_free (JBool b) = True"
| "tuple_free (JNum x) = True"
| "tuple_free (JStr s) = True"
| "tuple_free (JArr xs) = list_all id (map tuple_free xs)"
| "tuple_free (JTuple xs) = False"
| "tuple_free (JObj kvs) = list_all snd (map (map_prod id tuple_free) kvs)"

text \<open>Python's truth value of such a value (\<open>if x:\<close>, \<open>not x\<close>).\<close>

fun truthy :: "json \<Rightarrow> bool" where
  "truthy JNull = False"
| "truthy (JBool b) = b"
| "truthy (JNum x) = (x \<noteq> 0)"
| "truthy (JStr s) = (s \<noteq> [])"
| "truthy (JArr xs) = (xs \<noteq> [])"
| "truthy (JTuple xs) = (xs \<noteq> [])"
| "truthy (JObj kvs) = (kvs \<noteq> [])"

text \<open>
  \<open>d[key]\<close> for a string key: \<open>KeyError\<close> on a dictionary without the key, \<open>TypeError\<close> on
  every other value (a list, tuple or string indexed by a string, a number, a boolean,
  \<open>None\<close>).
\<close>

fun get_item :: "json \<Rightarrow> string \<Rightarrow> py_error + json" where
  "get_item (JObj kvs) k = (case map_of kvs k of None \<Rightarrow> Inl KeyError | Some v \<Rightarrow> Inr v)"
| "get_item _ k = Inl TypeError"

text \<open>
  The operand of \<open>time.time() - x\<close>: a number, or a boolean (Python's \<open>bool\<close> is an \<open>int\<close>);
  anything else raises \<open>TypeError\<close>.
\<close>

fun as_number :: "json \<Rightarrow> py_error + real" where
  "as_number (JNum x) = Inr x"
| "as_number (JBool b) = Inr (if b then 1 else 0)"
| "as_number _ = Inl TypeError"

section \<open>Content cache (\<open>utils/cache_manager.py\<close>, \<open>config.py\<close>)\<close>

text \<open>
  The files of the cache as a store from path to the JSON document that the file holds; a
  path without a file maps to \<open>None\<close>.
\<close>

type_synonym filesystem = "string \<rightharpoonup> json"

definition CACHE_TIMEOUT :: real where
  "CACHE_TIMEOUT = 3600"

text \<open>\<open>os.path.join(a, b)\<close> on POSIX, two components.\<close>

definition os_path_join :: "string \<Rightarrow> string \<Rightarrow> string" where
  "os_path_join a b =
     (if b \<noteq> [] \<and> hd b = CHR ''/'' then b
      else if a = [] \<or> last a = CHR ''/'' then a @ b
      else a @ ''/'' @ b)"

definition get_cache_path :: "string \<Rightarrow> string \<Rightarrow> string" where
  "get_cache_path cache_dir cache_id = os_path_join cache_dir (cache_id @ ''.json'')"

text \<open>
  \<open>save_to_cache(data, cache_id)\<close>; \<open>now\<close> is the value of \<open>time.time()\<close>. What
  \<open>open(path, 'w')\<close> does is the file system's, a parameter here: \<open>open_w path\<close> is the
  exception that it raises for the path, if any (\<open>FileNotFoundError\<close> when the directory of
  the path does not exist, as for a key with a path separator). When the file opens, it
  replaces what was there and then holds what \<open>json.dump\<close> wrote.
\<close>

definition save_to_cache ::
    "string \<Rightarrow> (string \<Rightarrow> py_error option) \<Rightarrow> filesystem \<Rightarrow> real \<Rightarrow> json \<Rightarrow> string
       \<Rightarrow> py_error + filesystem" where
  "save_to_cache cache_dir open_w fs now data cache_id =
     (let cache_data = JObj [(''timestamp'', JNum now), (''data'', data)];
          cache_path = get_cache_path cache_dir cache_id
      in case open_w cache_path of
           Some e \<Rightarrow> Inl e
         | None \<Rightarrow> Inr (fs(cache_path \<mapsto> json_dumped cache_data)))"

text \<open>
  \<open>get_from_cache(cache_id)\<close>; \<open>now\<close> is the value of \<open>time.time()\<close> at the expiry check.
  The result is the returned value (\<open>None\<close> is \<^const>\<open>JNull\<close>) and the store afterwards;
  an exception leaves the store as it was.
\<close>

definition get_from_cache :: "string \<Rightarrow> filesystem \<Rightarrow> real \<Rightarrow> string \<Rightarrow> py_error + (json \<times> filesystem)" where
  "get_from_cache cache_dir fs now cache_id =
     (let cache_path = get_cache_path cache_dir cache_id in
      case fs cache_path of
        None \<Rightarrow> Inr (JNull, fs)
      | Some cache_data \<Rightarrow>
          (case get_item cache_data ''timestamp'' of
             Inl e \<Rightarrow> Inl e
           | Inr ts \<Rightarrow>
               (case as_number ts of
                  Inl e \<Rightarrow> Inl e
                | Inr t \<Rightarrow>
                    if now - t > CACHE_TIMEOUT then Inr (JNull, fs(cache_path := None))
                    else (case get_item cache_data ''data'' of
                            Inl e \<Rightarrow> Inl e
                          | Inr d \<Rightarrow> Inr (d, fs)))))"

section \<open>Ingestion tracker (\<open>utils/pdf_processor.py\<close>, \<open>utils/user_manager.py\<close>)\<close>

text \<open>
  What one user's workspace holds, as far as \<open>PDFProcessor\<close> reads and writes it:
  \<^item> \<open>pdf_files\<close>, \<open>docx_files\<close>: what \<open>glob.glob\<close> returns for \<open>*.pdf\<close> and \<open>*.docx\<close> in the
    document folder;
  \<^item> \<open>getmtime\<close>: \<open>os.path.getmtime\<close>;
  \<^item> \<open>state_file\<close>: the ledger file \<open>processed_files_<user>.json\<close>, \<open>None\<close> when it does not
    exist; a ledger is a dictionary from path to modification time, in insertion order;
  \<^item> \<open>vectordb\<close>: the vector-index folder, \<open>None\<close> when it does not exist, otherwise the
    stored chunks, each a pair of text and \<open>source\<close> tag.
\<close>

type_synonym ledger = "(string \<times> real) list"

record world =
  pdf_files :: "string list"
  docx_files :: "string list"
  getmtime :: "string \<Rightarrow> real"
  state_file :: "ledger option"
  vectordb :: "(string \<times> string) list option"

definition get_user_processed_files :: "world \<Rightarrow> ledger" where
  "get_user_processed_files w = (case state_file w of Some processed_files \<Rightarrow> processed_files | None \<Rightarrow> [])"

definition save_user_processed_files :: "world \<Rightarrow> ledger \<Rightarrow> world" where
  "save_user_processed_files w processed_files = w\<lparr>state_file := Some processed_files\<rparr>"

text \<open>
  The loop over \<open>all_files\<close> of \<open>check_new_files\<close>, on the state \<open>(new_files, processed_files)\<close>:
  a file is new when the ledger has no entry for it or an older time. \<open>processed_files[file] = t\<close>
  replaces the value in place or appends the key, as \<^const>\<open>AList.update\<close> does.
\<close>

definition new_file_step :: "(string \<Rightarrow> real) \<Rightarrow> string \<Rightarrow> string list \<times> ledger \<Rightarrow> string list \<times> ledger" where
  "new_file_step mtime file st =
     (case st of (new_files, processed_files) \<Rightarrow>
        let last_modified = mtime file in
        if (case map_of processed_files file of None \<Rightarrow> True | Some t \<Rightarrow> t < last_modified)
        then (new_files @ [file], AList.update file last_modified processed_files)
        else (new_files, processed_files))"

text \<open>
  \<open>check_new_files\<close>: returns \<open>(new_files, removed_files)\<close> and the workspace with the ledger
  saved. \<open>processed_files.pop(f, None)\<close> is \<^const>\<open>AList.delete\<close>.
\<close>

definition check_new_files :: "world \<Rightarrow> (string list \<times> string list) \<times> world" where
  "check_new_files w =
     (let all_files = pdf_files w @ docx_files w;
          processed_files = get_user_processed_files w;
          removed_files = filter (\<lambda>f. f \<notin> set all_files) (map fst processed_files);
          processed_files = fold AList.delete removed_files processed_files;
          (new_files, processed_files) = fold (new_file_step (getmtime w)) all_files ([], processed_files)
      in ((new_files, removed_files), save_user_processed_files w processed_files))"

text \<open>
  Auxiliary, for the statements below: the listing that \<open>check_new_files\<close> diffs against,
  its test for a new or updated file, and the time the ledger holds for a file afterwards.
\<close>

definition all_files :: "world \<Rightarrow> string list" where
  "all_files w = pdf_files w @ docx_files w"

definition is_new :: "(string \<Rightarrow> real) \<Rightarrow> ledger \<Rightarrow> string \<Rightarrow> bool" where
  "is_new mtime l f = (case map_of l f of None \<Rightarrow> True | Some t \<Rightarrow> t < mtime f)"

definition in_sync :: "world \<Rightarrow> bool" where
  "in_sync w =
     (list_all (\<lambda>k. k \<in> set (all_files w)) (map fst (get_user_processed_files w)) \<and>
      list_all (\<lambda>f. \<not> is_new (getmtime w) (get_user_processed_files w) f) (all_files w))"

text \<open>
  A workspace for the examples: the ledger records \<open>old.pdf\<close> and \<open>a.pdf\<close>; the folder holds
  \<open>a.pdf\<close>, modified since, and \<open>b.docx\<close>, not yet recorded.
\<close>

definition example_world :: world where
  "example_world =
     \<lparr>pdf_files = [''a.pdf''], docx_files = [''b.docx''],
      getmtime = (\<lambda>f. if f = ''a.pdf'' then 7 else 3),
      state_file = Some [(''old.pdf'', 1), (''a.pdf'', 5)],
      vectordb = Some [(''old text'', ''old.pdf''), (''a text'', ''a.pdf'')]\<rparr>"

section \<open>Document pipeline (\<open>utils/pdf_processor.py\<close>)\<close>

text \<open>
  The libraries that \<open>store_chroma_function\<close> calls are parameters: what \<open>PdfReader\<close> finds
  on the pages of a file and \<open>docx.Document\<close> in its paragraphs (or the exception they
  raise), and the text splitter, which maps documents (text, source) to chunks
  (text, source).
\<close>

record libs =
  pdf_pages :: "string \<Rightarrow> py_error + string list"
  docx_paragraphs :: "string \<Rightarrow> py_error + string list"
  split_documents :: "(string \<times> string) list \<Rightarrow> (string \<times> string) list"

text \<open>\<open>s.endswith(suffix)\<close>.\<close>

definition endswith :: "string \<Rightarrow> string \<Rightarrow> bool" where
  "endswith s suffix = (length suffix \<le> length s \<and> drop (length s - length suffix) s = suffix)"

text \<open>
  \<open>get_text_from_pdf\<close>: the text of every page whose extracted text is not empty, each
  followed by a newline. \<open>get_text_from_docx\<close>: every paragraph followed by a newline.
\<close>

definition get_text_from_pdf :: "libs \<Rightarrow> string \<Rightarrow> py_error + string" where
  "get_text_from_pdf L file_path =
     (case pdf_pages L file_path of
        Inl e \<Rightarrow> Inl e
      | Inr pages \<Rightarrow> Inr (concat (map (\<lambda>content. content @ [CHR 0x0A]) (filter (\<lambda>content. content \<noteq> []) pages))))"

definition get_text_from_docx :: "libs \<Rightarrow> string \<Rightarrow> py_error + string" where
  "get_text_from_docx L file_path =
     (case docx_paragraphs L file_path of
        Inl e \<Rightarrow> Inl e
      | Inr paragraphs \<Rightarrow> Inr (concat (map (\<lambda>p. p @ [CHR 0x0A]) paragraphs)))"

definition get_text_from_file :: "libs \<Rightarrow> string \<Rightarrow> py_error + string" where
  "get_text_from_file L file_path =
     (if endswith file_path ''.pdf'' then get_text_from_pdf L file_path
      else if endswith file_path ''.docx'' then get_text_from_docx L file_path
      else Inr [])"

text \<open>
  The calls that leave the process, in the order made: opening the index
  (\<open>Chroma(persist_directory=...)\<close>), \<open>vectorstore.delete(where={"source": f})\<close>, the clean-up
  of an emptied workspace, text extraction from a file, text splitting, and the two calls
  that embed chunks: \<open>add_documents\<close> into the open index and \<open>Chroma.from_documents\<close>.
\<close>

datatype event =
    OpenIndex
  | DeleteBySource string
  | DeleteAll
  | CloseConnection
  | RemoveIndexFolder
  | RemoveStateFile
  | ExtractText string
  | SplitDocuments
  | AddDocuments
  | FromDocuments

fun is_ingest_event :: "event \<Rightarrow> bool" where
  "is_ingest_event (ExtractText f) = True"
| "is_ingest_event SplitDocuments = True"
| "is_ingest_event AddDocuments = True"
| "is_ingest_event FromDocuments = True"
| "is_ingest_event _ = False"

text \<open>The handle on the index kept in a folder.\<close>

datatype vectorstore = Chroma string

text \<open>
  The loop \<open>for f in new_files\<close> that builds \<open>docs\<close>; an exception of the extraction ends
  the call.
\<close>

fun extract_docs :: "libs \<Rightarrow> string list \<Rightarrow> py_error + (string \<times> string) list" where
  "extract_docs L [] = Inr []"
| "extract_docs L (f # fs) =
     (case get_text_from_file L f of
        Inl e \<Rightarrow> Inl e
      | Inr text \<Rightarrow>
          (case extract_docs L fs of
             Inl e \<Rightarrow> Inl e
           | Inr docs \<Rightarrow> Inr ((text, f) # docs)))"

text \<open>
  \<open>store_chroma_function\<close>, for the index folder \<open>vectordb_folder\<close>: the returned handle
  (\<open>None\<close> when there is no index), the workspace afterwards and the calls made.
\<close>

definition store_chroma_function ::
    "libs \<Rightarrow> string \<Rightarrow> world \<Rightarrow> py_error + (vectorstore option \<times> world \<times> event list)" where
  "store_chroma_function L vectordb_folder w0 =
     (let ((new_files, removed_files), w1) = check_new_files w0;
          (vectorstore, trace1) =
             (if vectordb w1 \<noteq> None then (Some (Chroma vectordb_folder), [OpenIndex]) else (None, []));
          (w2, trace2) =
             (if removed_files \<noteq> [] \<and> vectorstore \<noteq> None
              then (w1\<lparr>vectordb := map_option (filter (\<lambda>(text, source). source \<notin> set removed_files)) (vectordb w1)\<rparr>,
                    trace1 @ map DeleteBySource removed_files)
              else (w1, trace1));
          all_files = pdf_files w2 @ docx_files w2
      in
      if all_files = [] then
        (let trace3 = trace2 @ (if vectorstore \<noteq> None then [DeleteAll, CloseConnection] else []);
             trace4 = trace3 @ (if vectordb w2 \<noteq> None then [RemoveIndexFolder] else []);
             trace5 = trace4 @ (if state_file w2 \<noteq> None then [RemoveStateFile] else [])
         in Inr (None, w2\<lparr>vectordb := None, state_file := None\<rparr>, trace5))
      else if new_files = [] then Inr (vectorstore, w2, trace2)
      else
        (case extract_docs L new_files of
           Inl e \<Rightarrow> Inl e
         | Inr docs \<Rightarrow>
             (let trace3 = trace2 @ map ExtractText new_files @ [SplitDocuments];
                  chunks = split_documents L docs;
                  (vectorstore, w3, trace4) =
                    (case vectordb w2 of
                       Some stored \<Rightarrow>
                         (vectorstore, w2\<lparr>vectordb := Some (stored @ chunks)\<rparr>, trace3 @ [AddDocuments])
                     | None \<Rightarrow>
                         (Some (Chroma vectordb_folder), w2\<lparr>vectordb := Some chunks\<rparr>,
                          trace3 @ [FromDocuments]));
                  processed_files = get_user_processed_files w3
              in Inr (vectorstore, save_user_processed_files w3 processed_files, trace4))))"

text \<open>Libraries for the examples: every file has one page or paragraph, and nothing is split.\<close>

definition example_libs :: libs where
  "example_libs =
     \<lparr>pdf_pages = (\<lambda>f. Inr [''page'']), docx_paragraphs = (\<lambda>f. Inr [''paragraph'']),
      split_documents = (\<lambda>docs. docs)\<rparr>"

section \<open>Python operations on JSON values and strings\<close>

text \<open>
  Strings are lists of 8-bit characters, read as code points below 256. \<open>is_space\<close> is
  \<open>str.isspace\<close> on them, which is also what \<open>\s\<close> matches.
\<close>

definition is_space :: "char \<Rightarrow> bool" where
  "is_space c = (c \<in> {CHR 0x09, CHR 0x0A, CHR 0x0B, CHR 0x0C, CHR 0x0D, CHR 0x1C, CHR 0x1D,
                        CHR 0x1E, CHR 0x1F, CHR 0x20, CHR 0x85, CHR 0xA0})"

text \<open>\<open>s.strip(chars)\<close> removes from both ends the characters that occur in \<open>chars\<close>; \<open>s.strip()\<close> removes whitespace.\<close>

definition strip_chars :: "string \<Rightarrow> string \<Rightarrow> string" where
  "strip_chars chars s =
     rev (dropWhile (\<lambda>c. c \<in> set chars) (rev (dropWhile (\<lambda>c. c \<in> set chars) s)))"

definition strip :: "string \<Rightarrow> string" where
  "strip s = rev (dropWhile is_space (rev (dropWhile is_space s)))"

text \<open>\<open>xs[:n]\<close> on a list or string: the first \<open>n\<close> elements, or all but the last \<open>-n\<close> for a negative \<open>n\<close>.\<close>

definition slice_to :: "'a list \<Rightarrow> int \<Rightarrow> 'a list" where
  "slice_to xs n = (if 0 \<le> n then take (nat n) xs else take (length xs - nat (- n)) xs)"

text \<open>
  \<open>x[:n]\<close> on a JSON value: lists, tuples and strings are sliced; a dictionary and the
  other values raise.
\<close>

fun py_slice_to :: "json \<Rightarrow> int \<Rightarrow> py_error + json" where
  "py_slice_to (JArr xs) n = Inr (JArr (slice_to xs n))"
| "py_slice_to (JTuple xs) n = Inr (JTuple (slice_to xs n))"
| "py_slice_to (JStr s) n = Inr (JStr (slice_to s n))"
| "py_slice_to _ n = Inl TypeError"

text \<open>
  Iterating a JSON value (\<open>for q in x\<close>, \<open>list.extend(x)\<close>): the elements of a list or
  tuple, the characters of a string, the keys of a dictionary; the other values raise
  \<open>TypeError\<close>.
\<close>

fun py_iter :: "json \<Rightarrow> py_error + json list" where
  "py_iter (JArr xs) = Inr xs"
| "py_iter (JTuple xs) = Inr xs"
| "py_iter (JStr s) = Inr (map (\<lambda>c. JStr [c]) s)"
| "py_iter (JObj kvs) = Inr (map (\<lambda>kv. JStr (fst kv)) kvs)"
| "py_iter _ = Inl TypeError"

section \<open>The language model\<close>

text \<open>
  The two library calls of the generators are parameters:
  \<^item> \<open>generate_content\<close>: the text of the model's response to the prompt built around a batch
    text, or the exception that the call or the access to its \<open>text\<close> raises;
  \<^item> \<open>json_loads\<close>: \<open>json.loads\<close>, \<open>None\<close> where it raises \<open>JSONDecodeError\<close>.
\<close>

record llm =
  generate_content :: "string \<Rightarrow> py_error + string"
  json_loads :: "string \<Rightarrow> json option"

section \<open>Quiz generator (\<open>utils/quiz_generator.py\<close>)\<close>

text \<open>
  The dictionary \<open>params\<close> of \<open>generate_quiz\<close> after the defaults are merged in; field
  \<open>p_x\<close> is \<open>params['x']\<close>.
\<close>

record quiz_params =
  p_num_questions :: int
  p_difficulty :: string
  p_similarity_threshold :: real
  p_batch_size :: int

text \<open>
  \<open>[q for q in questions if q['difficulty'] == difficulty]\<close> on the elements of
  \<open>questions\<close>: an element without \<open>q['difficulty']\<close> raises.
\<close>

fun filter_difficulty :: "string \<Rightarrow> json list \<Rightarrow> py_error + json list" where
  "filter_difficulty d [] = Inr []"
| "filter_difficulty d (q # qs) =
     (case get_item q ''difficulty'' of
        Inl e \<Rightarrow> Inl e
      | Inr v \<Rightarrow>
          (case filter_difficulty d qs of
             Inl e \<Rightarrow> Inl e
           | Inr rest \<Rightarrow> Inr (if v = JStr d then q # rest else rest)))"

text \<open>
  \<open>generate_quiz_from_batch\<close>: every exception inside the \<open>try\<close> gives the empty list.
\<close>

definition generate_quiz_from_batch :: "llm \<Rightarrow> string \<Rightarrow> quiz_params \<Rightarrow> json" where
  "generate_quiz_from_batch M batch_text params =
     (case generate_content M batch_text of
        Inl e \<Rightarrow> JArr []
      | Inr response_text \<Rightarrow>
          (let response_text = strip (strip_chars ''```'' (strip_chars ''```json'' response_text)) in
           case json_loads M response_text of
             None \<Rightarrow> JArr []
           | Some questions \<Rightarrow>
               (case (if p_difficulty params \<noteq> [] \<and> p_difficulty params \<noteq> ''mixed''
                      then (case py_iter questions of
                              Inl e \<Rightarrow> Inl e
                            | Inr qs \<Rightarrow> map_sum id JArr (filter_difficulty (p_difficulty params) qs))
                      else Inr questions) of
                  Inl e \<Rightarrow> JArr []
                | Inr questions \<Rightarrow>
                    if p_num_questions params \<noteq> 0
                    then (case py_slice_to questions (p_num_questions params) of
                            Inl e \<Rightarrow> JArr []
                          | Inr questions \<Rightarrow> questions)
                    else questions)))"

text \<open>
  The loop over the batches of \<open>generate_quiz\<close>, on the state \<open>(params, all_questions)\<close>;
  \<open>calls\<close> lists, for each call of \<open>generate_quiz_from_batch\<close> and so of the model, the batch
  and the number of questions asked for. The loop ends at the \<open>break\<close>.
\<close>

fun quiz_loop ::
    "llm \<Rightarrow> int \<Rightarrow> string list \<Rightarrow> quiz_params \<Rightarrow> json list \<Rightarrow> (string \<times> int) list
       \<Rightarrow> py_error + (json list \<times> (string \<times> int) list)" where
  "quiz_loop M questions_needed [] params all_questions calls = Inr (all_questions, calls)"
| "quiz_loop M questions_needed (batch # batches) params all_questions calls =
     (if int (length all_questions) \<ge> questions_needed then Inr (all_questions, calls)
      else
        let remaining = questions_needed - int (length all_questions);
            params = params\<lparr>p_num_questions := min remaining 5\<rparr>;
            questions = generate_quiz_from_batch M batch params
        in case py_iter questions of
             Inl e \<Rightarrow> Inl e
           | Inr qs \<Rightarrow>
               quiz_loop M questions_needed batches params (all_questions @ qs)
                 (calls @ [(batch, p_num_questions params)]))"

text \<open>
  \<open>generate_quiz\<close>, with \<open>similarities\<close> as for \<open>deduplicate_chunks\<close>: the questions returned
  and the calls of the model.
\<close>

definition generate_quiz ::
    "llm \<Rightarrow> string list \<Rightarrow> py_error + real list list \<Rightarrow> quiz_params
       \<Rightarrow> py_error + (json list \<times> (string \<times> int) list)" where
  "generate_quiz M text_chunks similarities params =
     (case deduplicate_chunks text_chunks similarities (p_similarity_threshold params) of
        Inl e \<Rightarrow> Inl e
      | Inr unique_chunks \<Rightarrow>
          (case batch_chunks unique_chunks (p_batch_size params) of
             Inl e \<Rightarrow> Inl e
           | Inr batched_chunks \<Rightarrow>
               (let questions_needed = p_num_questions params in
                case quiz_loop M questions_needed batched_chunks params [] [] of
                  Inl e \<Rightarrow> Inl e
                | Inr (all_questions, calls) \<Rightarrow> Inr (slice_to all_questions questions_needed, calls))))"

section \<open>Notes generator (\<open>utils/notes_generator.py\<close>)\<close>

text \<open>
  \<open>re.sub(pat + r'\s*', '', s)\<close> for a literal, non-empty \<open>pat\<close>: every occurrence of \<open>pat\<close>,
  from the left, is removed with the whitespace that follows it.
\<close>

function remove_fence :: "string \<Rightarrow> string \<Rightarrow> string" where
  "remove_fence pat s =
     (if pat = [] \<or> s = [] then s
      else if take (length pat) s = pat
      then remove_fence pat (dropWhile is_space (drop (length pat) s))
      else hd s # remove_fence pat (tl s))"
  by pat_completeness auto
termination
proof (relation "measure (\<lambda>(pat, s). length s)")
  show "wf (measure (\<lambda>(pat, s). length s))" by simp
next
  fix pat s :: string
  assume a: "\<not> (pat = [] \<or> s = [])" "take (length pat) s = pat"
  have "length (dropWhile is_space (drop (length pat) s)) \<le> length (drop (length pat) s)"
    by (rule length_dropWhile_le)
  also have "\<dots> < length s" using a by simp
  finally show "((pat, dropWhile is_space (drop (length pat) s)), (pat, s))
      \<in> measure (\<lambda>(pat, s). length s)" by simp
next
  fix pat s :: string
  assume "\<not> (pat = [] \<or> s = [])"
  then show "((pat, tl s), (pat, s)) \<in> measure (\<lambda>(pat, s). length s)" by simp
qed

declare remove_fence.simps [simp del]

text \<open>
  \<open>re.search(r'\{.*\}', s, re.DOTALL)\<close>: the match runs from the first \<open>{\<close> to the last \<open>}\<close>
  after it.
\<close>

definition search_braces :: "string \<Rightarrow> string option" where
  "search_braces s =
     (let t = dropWhile (\<lambda>c. c \<noteq> CHR ''{'') s in
      if t \<noteq> [] \<and> CHR ''}'' \<in> set (tl t)
      then Some (rev (dropWhile (\<lambda>c. c \<noteq> CHR ''}'') (rev t)))
      else None)"

definition clean_json_response :: "string \<Rightarrow> string" where
  "clean_json_response response_text =
     (let response_text = remove_fence ''```json'' response_text;
          response_text = remove_fence ''```'' response_text;
          response_text = (case search_braces response_text of
                             Some m \<Rightarrow> m
                           | None \<Rightarrow> response_text)
      in strip response_text)"

text \<open>\<open>len(x)\<close> is defined on lists, tuples, strings and dictionaries.\<close>

fun has_len :: "json \<Rightarrow> bool" where
  "has_len (JArr xs) = True"
| "has_len (JTuple xs) = True"
| "has_len (JStr s) = True"
| "has_len (JObj kvs) = True"
| "has_len _ = False"

text \<open>
  \<open>generate_notes_from_batch\<close> returns a dictionary: the parsed response when it is a
  dictionary whose \<open>sections\<close>, if any, has a length, and \<open>{"sections": []}\<close> on every
  exception (of the call, of \<open>json.loads\<close>, of \<open>notes_data.get\<close> on what is not a
  dictionary, of \<open>len\<close>).
\<close>

definition generate_notes_from_batch :: "llm \<Rightarrow> string \<Rightarrow> (string \<times> json) list" where
  "generate_notes_from_batch M batch_text =
     (case generate_content M batch_text of
        Inl e \<Rightarrow> [(''sections'', JArr [])]
      | Inr response_text \<Rightarrow>
          (let cleaned_response = clean_json_response response_text in
           case json_loads M cleaned_response of
             None \<Rightarrow> [(''sections'', JArr [])]
           | Some (JObj notes_data) \<Rightarrow>
               (case map_of notes_data ''sections'' of
                  None \<Rightarrow> notes_data
                | Some sections \<Rightarrow> if has_len sections then notes_data else [(''sections'', JArr [])])
           | Some _ \<Rightarrow> [(''sections'', JArr [])]))"

text \<open>
  The loop of \<open>merge_notes\<close> on \<open>merged['sections']\<close>, and \<open>merge_notes\<close>.
\<close>

fun merge_sections :: "(string \<times> json) list list \<Rightarrow> json list \<Rightarrow> py_error + json list" where
  "merge_sections [] sections = Inr sections"
| "merge_sections (batch_notes # rest) sections =
     (case map_of batch_notes ''sections'' of
        None \<Rightarrow> merge_sections rest sections
      | Some s \<Rightarrow>
          (case py_iter s of
             Inl e \<Rightarrow> Inl e
           | Inr xs \<Rightarrow> merge_sections rest (sections @ xs)))"

definition merge_notes :: "(string \<times> json) list list \<Rightarrow> py_error + json" where
  "merge_notes all_notes_batches =
     (case merge_sections all_notes_batches [] of
        Inl e \<Rightarrow> Inl e
      | Inr sections \<Rightarrow> Inr (JObj [(''title'', JStr ''Generated Notes''), (''sections'', JArr sections)]))"

text \<open>The dictionary \<open>params\<close> of \<open>generate_notes\<close>, likewise.\<close>

record notes_params =
  n_similarity_threshold :: real
  n_batch_size :: int

text \<open>
  \<open>generate_notes\<close>: the merged notes and the batches the model was called on, one call
  for every batch.
\<close>

definition generate_notes ::
    "llm \<Rightarrow> string list \<Rightarrow> py_error + real list list \<Rightarrow> notes_params
       \<Rightarrow> py_error + (json \<times> string list)" where
  "generate_notes M text_chunks similarities params =
     (case deduplicate_chunks text_chunks similarities (n_similarity_threshold params) of
        Inl e \<Rightarrow> Inl e
      | Inr unique_chunks \<Rightarrow>
          (case batch_chunks unique_chunks (n_batch_size params) of
             Inl e \<Rightarrow> Inl e
           | Inr batched_chunks \<Rightarrow>
               (let all_notes_batches = map (generate_notes_from_batch M) batched_chunks in
                case merge_notes all_notes_batches of
                  Inl e \<Rightarrow> Inl e
                | Inr final_notes \<Rightarrow> Inr (final_notes, batched_chunks))))"

section \<open>Auxiliary notions for the generators\<close>

text \<open>
  The batches that \<open>generate_quiz\<close> and \<open>generate_notes\<close> build from the chunks: their first
  two steps.
\<close>

definition batched_chunks ::
    "string list \<Rightarrow> py_error + real list list \<Rightarrow> real \<Rightarrow> int \<Rightarrow> py_error + string list" where
  "batched_chunks text_chunks similarities threshold batch_size =
     (case deduplicate_chunks text_chunks similarities threshold of
        Inl e \<Rightarrow> Inl e
      | Inr unique_chunks \<Rightarrow> batch_chunks unique_chunks batch_size)"

text \<open>
  The questions that the response to a batch holds, when the call returns and the cleaned
  response parses to a list; and the batches whose response does not parse, for the quiz
  and for the notes generator.
\<close>

definition raw_questions :: "llm \<Rightarrow> string \<Rightarrow> json list option" where
  "raw_questions M batch_text =
     (case generate_content M batch_text of
        Inl e \<Rightarrow> None
      | Inr response_text \<Rightarrow>
          (case json_loads M (strip (strip_chars ''```'' (strip_chars ''```json'' response_text))) of
             Some (JArr qs) \<Rightarrow> Some qs
           | _ \<Rightarrow> None))"

text \<open>
  The questions of that list which \<open>generate_quiz_from_batch\<close> keeps before it truncates:
  all of them for the difficulty \<open>mixed\<close> (or an empty one), otherwise those of the
  difficulty asked for, provided every question carries a difficulty.
\<close>

definition batch_questions :: "llm \<Rightarrow> string \<Rightarrow> string \<Rightarrow> json list option" where
  "batch_questions M d batch_text =
     (case raw_questions M batch_text of
        None \<Rightarrow> None
      | Some qs \<Rightarrow>
          if d \<noteq> [] \<and> d \<noteq> ''mixed''
          then (case filter_difficulty d qs of Inl e \<Rightarrow> None | Inr kept \<Rightarrow> Some kept)
          else Some qs)"

definition quiz_parse_fails :: "llm \<Rightarrow> string \<Rightarrow> bool" where
  "quiz_parse_fails M batch_text =
     (case generate_content M batch_text of
        Inl e \<Rightarrow> False
      | Inr response_text \<Rightarrow>
          json_loads M (strip (strip_chars ''```'' (strip_chars ''```json'' response_text))) = None)"

definition notes_parse_fails :: "llm \<Rightarrow> string \<Rightarrow> bool" where
  "notes_parse_fails M batch_text =
     (case generate_content M batch_text of
        Inl e \<Rightarrow> False
      | Inr response_text \<Rightarrow> json_loads M (clean_json_response response_text) = None)"

text \<open>The sections that a batch adds to the merged notes.\<close>

definition notes_sections :: "llm \<Rightarrow> string \<Rightarrow> json list" where
  "notes_sections M batch_text =
     (case map_of (generate_notes_from_batch M batch_text) ''sections'' of
        None \<Rightarrow> []
      | Some s \<Rightarrow> (case py_iter s of Inl e \<Rightarrow> [] | Inr xs \<Rightarrow> xs))"

text \<open>
  A model for the examples: it answers every batch with the batch text itself; the text
  \<open>c1\<close> parses to two questions, \<open>c2\<close> to four, \<open>c3\<close> to four, \<open>n1\<close> to notes of one
  section, and nothing else parses.
\<close>

definition example_llm :: llm where
  "example_llm =
     \<lparr>generate_content = (\<lambda>batch_text. Inr batch_text),
      json_loads = (\<lambda>s.
        if s = ''c1'' then Some (JArr [JStr ''q1'', JStr ''q2''])
        else if s = ''c2'' then Some (JArr [JStr ''q3'', JStr ''q4'', JStr ''q5'', JStr ''q6''])
        else if s = ''c3'' then Some (JArr [JStr ''q7'', JStr ''q8'', JStr ''q9'', JStr ''q10''])
        else if s = ''n1'' then Some (JObj [(''sections'', JArr [JStr ''s1''])])
        else None)\<rparr>"

definition example_params :: quiz_params where
  "example_params =
     \<lparr>p_num_questions = 3, p_difficulty = ''mixed'', p_similarity_threshold = 85 / 100,
      p_batch_size = 1\<rparr>"

definition example_notes_params :: notes_params where
  "example_notes_params = \<lparr>n_similarity_threshold = 85 / 100, n_batch_size = 1\<rparr>"

section \<open>HTTP handlers (\<open>app.py\<close>, \<open>utils/youtube.py\<close>, \<open>config.py\<close>)\<close>

text \<open>
  A response is the pair \<open>jsonify(body), status\<close>; the \<open>except Exception as e\<close> of a handler
  answers \<open>{'error': str(e)}\<close> with status 500, kept here as the exception.
\<close>

datatype response =
    Response nat "(string \<times> json) list"
  | ServerError py_error

text \<open>
  What the handlers take from outside the repository's own logic:
  \<^item> \<open>extract_video_id\<close>: the two regular-expression searches of \<open>utils/youtube.py\<close>;
  \<^item> \<open>fetch_snippets\<close>: the snippet texts that \<open>YouTubeTranscriptApi().fetch\<close> returns, or its
    exception;
  \<^item> \<open>model\<close>: the language model and \<open>json.loads\<close>;
  \<^item> \<open>tfidf_cosine\<close>: the cosine similarities of the TF-IDF vectors of a list of chunks, or
    the exception of the vectorizer;
  \<^item> \<open>parse_int\<close>, \<open>parse_float\<close>: \<open>int(s)\<close> and \<open>float(s)\<close> on a string, \<open>None\<close> for \<open>ValueError\<close>;
  \<^item> \<open>py_repr\<close>: how an f-string prints a JSON value that is not a string;
  \<^item> \<open>embeddings_init\<close>: the exception, if any, of creating the embeddings client in
    \<open>PDFProcessor.__init__\<close>.
\<close>

record app_env =
  extract_video_id :: "string \<Rightarrow> string option"
  fetch_snippets :: "string \<Rightarrow> py_error + string list"
  model :: llm
  tfidf_cosine :: "string list \<Rightarrow> py_error + real list list"
  parse_int :: "string \<Rightarrow> int option"
  parse_float :: "string \<Rightarrow> real option"
  py_repr :: "json \<Rightarrow> string"
  embeddings_init :: "py_error option"

definition MAX_QUESTIONS_PER_QUIZ :: int where
  "MAX_QUESTIONS_PER_QUIZ = 50"

definition DEFAULT_BATCH_SIZE :: int where
  "DEFAULT_BATCH_SIZE = 7"

definition DEFAULT_SIMILARITY_THRESHOLD :: real where
  "DEFAULT_SIMILARITY_THRESHOLD = 85 / 100"

text \<open>
  \<open>get_transcript\<close>: the snippet texts, each followed by a space; any exception is raised
  again as a plain \<open>Exception\<close>.
\<close>

definition get_transcript :: "app_env \<Rightarrow> string \<Rightarrow> py_error + string" where
  "get_transcript E video_id =
     (case fetch_snippets E video_id of
        Inl e \<Rightarrow> Inl UpstreamError
      | Inr snippets \<Rightarrow> Inr (concat (map (\<lambda>text. text @ '' '') snippets)))"

text \<open>
  \<open>process_youtube(user_id)\<close> on the request body \<open>data\<close>, a JSON object; \<open>fs\<close> is the cache,
  \<open>open_w\<close> is as for \<open>save_to_cache\<close>, \<open>t_get\<close> and \<open>t_save\<close> are the values of \<open>time.time()\<close>
  in the cache read and the cache write. The result is the response, the cache afterwards and
  the video ids whose transcript was fetched.
\<close>

definition process_youtube ::
    "app_env \<Rightarrow> string \<Rightarrow> (string \<Rightarrow> py_error option) \<Rightarrow> string \<Rightarrow> (string \<times> json) list \<Rightarrow> filesystem
       \<Rightarrow> real \<Rightarrow> real \<Rightarrow> response \<times> filesystem \<times> string list" where
  "process_youtube E cache_dir open_w user_id data fs t_get t_save =
     (if data = [] \<or> map_of data ''url'' = None
      then (Response 400 [(''error'', JStr ''No URL provided'')], fs, [])
      else
        case map_of data ''url'' of
          Some (JStr url) \<Rightarrow>
            (case extract_video_id E url of
               None \<Rightarrow> (Response 400 [(''error'', JStr ''Invalid YouTube URL'')], fs, [])
             | Some video_id \<Rightarrow>
                 if video_id = [] then (Response 400 [(''error'', JStr ''Invalid YouTube URL'')], fs, [])
                 else
                   let cache_id = ''yt_'' @ user_id @ ''_'' @ video_id in
                   case get_from_cache cache_dir fs t_get cache_id of
                     Inl e \<Rightarrow> (ServerError e, fs, [])
                   | Inr (cached_transcript, fs) \<Rightarrow>
                       if truthy cached_transcript
                       then (Response 200 [(''message'', JStr ''Transcript retrieved from cache''),
                                           (''cache_id'', JStr cache_id),
                                           (''user_id'', JStr user_id)], fs, [])
                       else
                         (case get_transcript E video_id of
                            Inl e \<Rightarrow> (ServerError e, fs, [video_id])
                          | Inr transcript \<Rightarrow>
                              (case save_to_cache cache_dir open_w fs t_save (JStr transcript) cache_id of
                                 Inl e \<Rightarrow> (ServerError e, fs, [video_id])
                               | Inr fs \<Rightarrow>
                                   (Response 200 [(''message'', JStr ''YouTube transcript processed successfully''),
                                                  (''cache_id'', JStr cache_id),
                                                  (''user_id'', JStr user_id)],
                                    fs, [video_id]))))
        | _ \<Rightarrow> (ServerError TypeError, fs, []))"

text \<open>\<open>int(x)\<close> and \<open>float(x)\<close> on a JSON value, and \<open>str(n)\<close> on an integer.\<close>

definition py_int :: "app_env \<Rightarrow> json \<Rightarrow> py_error + int" where
  "py_int E x =
     (case x of
        JNum r \<Rightarrow> Inr (if 0 \<le> r then \<lfloor>r\<rfloor> else \<lceil>r\<rceil>)
      | JBool b \<Rightarrow> Inr (if b then 1 else 0)
      | JStr s \<Rightarrow> (case parse_int E s of None \<Rightarrow> Inl ValueError | Some i \<Rightarrow> Inr i)
      | _ \<Rightarrow> Inl TypeError)"

definition py_float :: "app_env \<Rightarrow> json \<Rightarrow> py_error + real" where
  "py_float E x =
     (case x of
        JNum r \<Rightarrow> Inr r
      | JBool b \<Rightarrow> Inr (if b then 1 else 0)
      | JStr s \<Rightarrow> (case parse_float E s of None \<Rightarrow> Inl ValueError | Some r \<Rightarrow> Inr r)
      | _ \<Rightarrow> Inl TypeError)"

function str_nat :: "nat \<Rightarrow> string" where
  "str_nat n = (if n < 10 then [''0123456789'' ! n] else str_nat (n div 10) @ [''0123456789'' ! (n mod 10)])"
  by pat_completeness auto
termination
  by (relation "measure (\<lambda>n. n)") auto

declare str_nat.simps [simp del]

definition str_int :: "int \<Rightarrow> string" where
  "str_int i = (if i < 0 then ''-'' @ str_nat (nat (- i)) else str_nat (nat i))"

text \<open>A value inside an f-string.\<close>

definition format_value :: "app_env \<Rightarrow> json \<Rightarrow> string" where
  "format_value E x = (case x of JStr s \<Rightarrow> s | _ \<Rightarrow> py_repr E x)"

text \<open>\<open>data.get(key, default)\<close>.\<close>

definition dict_get :: "(string \<times> json) list \<Rightarrow> string \<Rightarrow> json \<Rightarrow> json" where
  "dict_get data key dflt = (case map_of data key of None \<Rightarrow> dflt | Some v \<Rightarrow> v)"

text \<open>\<open>s.startswith(prefix)\<close>.\<close>

definition startswith :: "string \<Rightarrow> string \<Rightarrow> bool" where
  "startswith s prefix = (take (length prefix) s = prefix)"

text \<open>
  The first part of the handler \<open>generate_quiz(user_id)\<close> of \<open>app.py\<close>: building and
  validating \<open>params\<close>. It gives the response that ends the request, or \<open>num_questions\<close>,
  \<open>difficulty\<close> and \<open>similarity_threshold\<close>.
\<close>

definition quiz_request_params :: "app_env \<Rightarrow> (string \<times> json) list \<Rightarrow> response + (int \<times> string \<times> real)" where
  "quiz_request_params E data =
     (case py_int E (dict_get data ''num_questions'' (JNum 10)) of
        Inl e \<Rightarrow> Inl (ServerError e)
      | Inr n \<Rightarrow>
          (case py_float E (dict_get data ''similarity_threshold'' (JNum DEFAULT_SIMILARITY_THRESHOLD)) of
             Inl e \<Rightarrow> Inl (ServerError e)
           | Inr threshold \<Rightarrow>
               if n > MAX_QUESTIONS_PER_QUIZ
               then Inl (Response 400 [(''error'', JStr ''Maximum 50 questions allowed'')])
               else
                 (case dict_get data ''difficulty'' (JStr ''mixed'') of
                    JStr d \<Rightarrow>
                      if d \<notin> set [''mixed'', ''easy'', ''medium'', ''hard'']
                      then Inl (Response 400 [(''error'', JStr ''Invalid difficulty level'')])
                      else Inr (n, d, threshold)
                  | _ \<Rightarrow> Inl (Response 400 [(''error'', JStr ''Invalid difficulty level'')]))))"

text \<open>
  \<open>quiz_generator.generate_quiz(chunks, params)\<close> with the handler's \<open>params\<close>: the default
  batch size is merged in, and the similarities are those of the chunks.
\<close>

definition run_generate_quiz ::
    "app_env \<Rightarrow> string list \<Rightarrow> int \<Rightarrow> string \<Rightarrow> real \<Rightarrow> py_error + (json list \<times> (string \<times> int) list)" where
  "run_generate_quiz E chunks n d threshold =
     (let params = \<lparr>p_num_questions = n, p_difficulty = d, p_similarity_threshold = threshold,
                     p_batch_size = DEFAULT_BATCH_SIZE\<rparr>
      in generate_quiz (model E) chunks (tfidf_cosine E chunks) params)"

text \<open>
  The handler \<open>generate_quiz(user_id)\<close> of \<open>app.py\<close>, on the request body \<open>data\<close>, the cache
  \<open>fs\<close> with \<open>open_w\<close> as for \<open>save_to_cache\<close>, and the user's workspace \<open>w\<close>; \<open>t_quiz\<close>,
  \<open>t_transcript\<close> and \<open>t_save\<close> are the values of
  \<open>time.time()\<close> in the read of the cached quiz, the read of the transcript and the write
  of the new quiz. The result is the response, the cache and the workspace afterwards,
  and the calls of the model. In the branch for documents, \<open>PDFProcessor(user_id)\<close> creates
  the index folder, the handle on it is true in Python and \<open>vectorstore.get()\<close> answers with
  a dictionary that has \<open>documents\<close>, so the two 404 answers of that branch are not reached.
\<close>

definition api_generate_quiz ::
    "app_env \<Rightarrow> string \<Rightarrow> (string \<Rightarrow> py_error option) \<Rightarrow> string \<Rightarrow> (string \<times> json) list \<Rightarrow> filesystem \<Rightarrow> world
       \<Rightarrow> real \<Rightarrow> real \<Rightarrow> real \<Rightarrow> response \<times> filesystem \<times> world \<times> (string \<times> int) list" where
  "api_generate_quiz E cache_dir open_w user_id data fs w t_quiz t_transcript t_save =
     (if data = [] \<or> map_of data ''cache_id'' = None
      then (Response 400 [(''error'', JStr ''No cache ID provided'')], fs, w, [])
      else
        case quiz_request_params E data of
          Inl r \<Rightarrow> (r, fs, w, [])
        | Inr (n, d, threshold) \<Rightarrow>
            let cache_id = dict_get data ''cache_id'' JNull;
                quiz_cache_id = format_value E cache_id @ ''_'' @ str_int n @ ''_'' @ d
            in
            case get_from_cache cache_dir fs t_quiz quiz_cache_id of
              Inl e \<Rightarrow> (ServerError e, fs, w, [])
            | Inr (cached_quiz, fs) \<Rightarrow>
                if truthy cached_quiz
                then (Response 200 [(''message'', JStr ''Quiz retrieved from cache''),
                                    (''quiz'', cached_quiz), (''user_id'', JStr user_id)], fs, w, [])
                else
                  (case cache_id of
                     JStr cid \<Rightarrow>
                       if startswith cid (''yt_'' @ user_id @ ''_'') then
                         (case get_from_cache cache_dir fs t_transcript cid of
                            Inl e \<Rightarrow> (ServerError e, fs, w, [])
                          | Inr (transcript, fs) \<Rightarrow>
                              if \<not> truthy transcript
                              then (Response 404 [(''error'', JStr ''Transcript not found'')], fs, w, [])
                              else
                                (case transcript of
                                   JStr text \<Rightarrow>
                                     (case run_generate_quiz E [text] n d threshold of
                                        Inl e \<Rightarrow> (ServerError e, fs, w, [])
                                      | Inr (quiz, calls) \<Rightarrow>
                                          (case save_to_cache cache_dir open_w fs t_save (JArr quiz) quiz_cache_id of
                                             Inl e \<Rightarrow> (ServerError e, fs, w, calls)
                                           | Inr fs \<Rightarrow>
                                               (Response 200 [(''message'', JStr ''Quiz generated successfully''),
                                                              (''quiz'', JArr quiz), (''user_id'', JStr user_id)],
                                                fs, w, calls)))
                                 | _ \<Rightarrow> (ServerError TypeError, fs, w, [])))
                       else if startswith cid (''doc_'' @ user_id @ ''_'') then
                         (case embeddings_init E of
                            Some e \<Rightarrow> (ServerError e, fs, w, [])
                          | None \<Rightarrow>
                              let stored = (case vectordb w of None \<Rightarrow> [] | Some chunks \<Rightarrow> chunks);
                                  w = w\<lparr>vectordb := Some stored\<rparr>;
                                  documents = map fst stored
                              in case run_generate_quiz E documents n d threshold of
                                   Inl e \<Rightarrow> (ServerError e, fs, w, [])
                                 | Inr (quiz, calls) \<Rightarrow>
                                     (case save_to_cache cache_dir open_w fs t_save (JArr quiz) quiz_cache_id of
                                        Inl e \<Rightarrow> (ServerError e, fs, w, calls)
                                      | Inr fs \<Rightarrow>
                                          (Response 200 [(''message'', JStr ''Quiz generated successfully''),
                                                         (''quiz'', JArr quiz), (''user_id'', JStr user_id)],
                                           fs, w, calls)))
                       else (Response 400 [(''error'', JStr ''Invalid cache ID format'')], fs, w, [])
                   | _ \<Rightarrow> (ServerError AttributeError, fs, w, [])))"

text \<open>
  An environment for the examples: every URL names the video \<open>vid\<close>, whose transcript has
  no snippet; the model is \<^const>\<open>example_llm\<close>.
\<close>

definition example_env :: app_env where
  "example_env =
     \<lparr>extract_video_id = (\<lambda>url. Some ''vid''),
      fetch_snippets = (\<lambda>video_id. Inr []),
      model = example_llm,
      tfidf_cosine = (\<lambda>chunks. Inl ValueError),
      parse_int = (\<lambda>s. None),
      parse_float = (\<lambda>s. None),
      py_repr = (\<lambda>x. ''?''),
      embeddings_init = None\<rparr>"

chapter \<open>Properties\<close>

section \<open>Batcher\<close>

lemma concat_chop: "0 < n \<Longrightarrow> concat (chop n xs) = xs"
proof (induction n xs rule: chop.induct)
  case (1 n xs)
  then show ?case by (subst chop.simps) auto
qed

lemma chop_lengths: "g \<in> set (chop n xs) \<Longrightarrow> g \<noteq> [] \<and> length g \<le> n"
proof (induction n xs rule: chop.induct)
  case (1 n xs)
  show ?case
  proof (cases "0 < n \<and> xs \<noteq> []")
    case True
    then have c: "chop n xs = take n xs # chop n (drop n xs)" by (subst chop.simps) simp
    from "1.prems" c have "g = take n xs \<or> g \<in> set (chop n (drop n xs))" by simp
    then show ?thesis
    proof
      assume "g = take n xs"
      with True show ?thesis by simp
    next
      assume "g \<in> set (chop n (drop n xs))"
      with "1.IH" True show ?thesis by simp
    qed
  next
    case False
    then have "chop n xs = []" by (subst chop.simps) simp
    with "1.prems" show ?thesis by simp
  qed
qed

lemma chop_butlast: "g \<in> set (butlast (chop n xs)) \<Longrightarrow> length g = n"
proof (induction n xs rule: chop.induct)
  case (1 n xs)
  show ?case
  proof (cases "0 < n \<and> xs \<noteq> []")
    case True
    then have c: "chop n xs = take n xs # chop n (drop n xs)" by (subst chop.simps) simp
    show ?thesis
    proof (cases "chop n (drop n xs) = []")
      case True
      with c "1.prems" show ?thesis by simp
    next
      case False
      then have "drop n xs \<noteq> []" by (subst (asm) chop.simps) (auto split: if_splits)
      then have "length (take n xs) = n" by simp
      with c False "1.prems" "1.IH" True show ?thesis by auto
    qed
  next
    case False
    then have "chop n xs = []" by (subst chop.simps) simp
    with "1.prems" show ?thesis by simp
  qed
qed

lemma batch_loop_chop:
  "0 < bs \<Longrightarrow> batch_loop chunks bs i acc = acc @ map (join SECTION_SEP) (chop bs (drop i chunks))"
proof (induction chunks bs i acc rule: batch_loop.induct)
  case (1 chunks bs i acc)
  show ?case
  proof (cases "i < length chunks")
    case True
    then have ne: "drop i chunks \<noteq> []" by simp
    have "batch_loop chunks bs i acc =
          batch_loop chunks bs (i + bs) (acc @ [join SECTION_SEP (take bs (drop i chunks))])"
      using True "1.prems" by (subst batch_loop.simps) simp
    also have "\<dots> = (acc @ [join SECTION_SEP (take bs (drop i chunks))]) @
          map (join SECTION_SEP) (chop bs (drop (i + bs) chunks))"
      using "1.IH" True "1.prems" by simp
    also have "\<dots> = acc @ map (join SECTION_SEP) (chop bs (drop i chunks))"
      using ne "1.prems" by (subst (2) chop.simps) (simp add: add.commute)
    finally show ?thesis .
  next
    case False
    then have "batch_loop chunks bs i acc = acc" by (subst batch_loop.simps) simp
    moreover from False have "chop bs (drop i chunks) = []" by (subst chop.simps) simp
    ultimately show ?thesis by simp
  qed
qed


text \<open>
  Claim C7. For a positive batch size, \<open>batch_chunks\<close> returns the joins (with the literal
  separator) of consecutive groups of the input: the groups concatenate to the input in
  its order, none is empty or longer than \<open>batch_size\<close>, all but the last have exactly
  \<open>batch_size\<close> chunks, and no chunks give no batches. Batching a, b, c, d, e by 2 gives
  the three batches of the specification.
\<close>

theorem batch_chunks_consecutive_groups:
  "(0 < batch_size \<longrightarrow>
      (\<exists>groups.
         batch_chunks chunks batch_size = Inr (map (join SECTION_SEP) groups) \<and>
         concat groups = chunks \<and>
         (\<forall>g \<in> set groups. g \<noteq> [] \<and> int (length g) \<le> batch_size) \<and>
         (\<forall>g \<in> set (butlast groups). int (length g) = batch_size) \<and>
         (chunks = [] \<longrightarrow> groups = [])) \<and>
      batch_chunks [] batch_size = Inr []) \<and>
   batch_chunks [''a'', ''b'', ''c'', ''d'', ''e''] 2 =
     Inr [''a'' @ [CHR 0x0A, CHR 0x0A] @ ''--- SECTION ---'' @ [CHR 0x0A, CHR 0x0A] @ ''b'',
          ''c'' @ [CHR 0x0A, CHR 0x0A] @ ''--- SECTION ---'' @ [CHR 0x0A, CHR 0x0A] @ ''d'',
          ''e'']"
proof (intro conjI impI)
  assume pos: "0 < batch_size"
  let ?n = "nat batch_size"
  let ?gs = "chop ?n chunks"
  from pos have n: "0 < ?n" by simp
  have res: "batch_chunks chunks batch_size = Inr (map (join SECTION_SEP) ?gs)"
    using pos n by (simp add: batch_chunks_def batch_loop_chop)
  have cc: "concat ?gs = chunks" using n by (rule concat_chop)
  have len: "\<forall>g \<in> set ?gs. g \<noteq> [] \<and> int (length g) \<le> batch_size"
  proof
    fix g assume "g \<in> set ?gs"
    then have "g \<noteq> [] \<and> length g \<le> ?n" by (rule chop_lengths)
    with pos show "g \<noteq> [] \<and> int (length g) \<le> batch_size" by linarith
  qed
  have full: "\<forall>g \<in> set (butlast ?gs). int (length g) = batch_size"
  proof
    fix g assume "g \<in> set (butlast ?gs)"
    then have "length g = ?n" by (rule chop_butlast)
    with pos show "int (length g) = batch_size" by linarith
  qed
  have emp: "chunks = [] \<longrightarrow> ?gs = []" by (simp add: chop.simps)
  from res cc len full emp
  show "\<exists>groups.
         batch_chunks chunks batch_size = Inr (map (join SECTION_SEP) groups) \<and>
         concat groups = chunks \<and>
         (\<forall>g \<in> set groups. g \<noteq> [] \<and> int (length g) \<le> batch_size) \<and>
         (\<forall>g \<in> set (butlast groups). int (length g) = batch_size) \<and>
         (chunks = [] \<longrightarrow> groups = [])"
    by blast
  from pos show "batch_chunks [] batch_size = Inr []"
    by (simp add: batch_chunks_def batch_loop.simps)
next
  show "batch_chunks [''a'', ''b'', ''c'', ''d'', ''e''] 2 =
     Inr [''a'' @ [CHR 0x0A, CHR 0x0A] @ ''--- SECTION ---'' @ [CHR 0x0A, CHR 0x0A] @ ''b'',
          ''c'' @ [CHR 0x0A, CHR 0x0A] @ ''--- SECTION ---'' @ [CHR 0x0A, CHR 0x0A] @ ''d'',
          ''e'']"
    by (simp add: batch_chunks_def batch_loop.simps SECTION_SEP_def)
qed

theorem batch_chunks_consecutive_groups_witness:
  "(0::int) < 2 \<and>
   (\<exists>groups.
      batch_chunks [''x'', ''y'', ''z''] 2 = Inr (map (join SECTION_SEP) groups) \<and>
      concat groups = [''x'', ''y'', ''z''] \<and>
      (\<forall>g \<in> set groups. g \<noteq> [] \<and> int (length g) \<le> 2) \<and>
      (\<forall>g \<in> set (butlast groups). int (length g) = 2)) \<and>
   batch_chunks [] 2 = Inr []"
  using batch_chunks_consecutive_groups [of 2 "[''x'', ''y'', ''z'']"] by simp

section \<open>Content cache\<close>


lemma dumped_tuple_free: "tuple_free (json_dumped v)"
proof (induction v)
  case (JObj kvs)
  have "\<And>kv. kv \<in> set kvs \<Longrightarrow> tuple_free (json_dumped (snd kv))"
  proof -
    fix kv assume kv: "kv \<in> set kvs"
    obtain k v where e: "kv = (k, v)" by (cases kv)
    with JObj.IH [of kv v] kv show "tuple_free (json_dumped (snd kv))" by simp
  qed
  then show ?case by (auto simp: list_all_iff)
qed (auto simp: list_all_iff)






text \<open>
  Claim C3. A read is a miss (\<open>None\<close>) when the key has no file, and when the stored entry
  is older than the TTL; in the second case the entry's file is gone after the read. So an
  entry written at \<open>t0\<close> and read at \<open>t0 + CACHE_TIMEOUT + \<epsilon>\<close>, \<open>\<epsilon> > 0\<close>, misses
  and is deleted.
\<close>

theorem cache_miss_absent_or_expired:
  "(fs (get_cache_path dir k) = None \<longrightarrow> get_from_cache dir fs now k = Inr (JNull, fs)) \<and>
   (fs (get_cache_path dir k) = Some entry \<and> get_item entry ''timestamp'' = Inr (JNum ts) \<and>
    now - ts > CACHE_TIMEOUT \<longrightarrow>
      get_from_cache dir fs now k = Inr (JNull, fs(get_cache_path dir k := None))) \<and>
   (0 < \<epsilon> \<and> save_to_cache dir open_w fs t0 v k = Inr fs1 \<longrightarrow>
      (\<exists>fs'. get_from_cache dir fs1 (t0 + CACHE_TIMEOUT + \<epsilon>) k = Inr (JNull, fs') \<and>
             fs' (get_cache_path dir k) = None))"
  by (auto simp: get_from_cache_def save_to_cache_def Let_def split: if_splits option.splits)

theorem cache_miss_absent_or_expired_witness:
  "Map.empty (get_cache_path ''cache'' ''k'') = None \<and>
   get_from_cache ''cache'' Map.empty 5 ''k'' = Inr (JNull, Map.empty) \<and>
   [get_cache_path ''cache'' ''k'' \<mapsto> JObj [(''timestamp'', JNum 10), (''data'', JStr ''x'')]]
       (get_cache_path ''cache'' ''k'') =
     Some (JObj [(''timestamp'', JNum 10), (''data'', JStr ''x'')]) \<and>
   get_item (JObj [(''timestamp'', JNum 10), (''data'', JStr ''x'')]) ''timestamp'' = Inr (JNum 10) \<and>
   (3611 :: real) - 10 > CACHE_TIMEOUT \<and>
   get_from_cache ''cache''
       [get_cache_path ''cache'' ''k'' \<mapsto> JObj [(''timestamp'', JNum 10), (''data'', JStr ''x'')]]
       3611 ''k'' =
     Inr (JNull, Map.empty) \<and>
   (0 :: real) < 1 \<and>
   save_to_cache ''cache'' (\<lambda>path. None) Map.empty 10 (JStr ''x'') ''k'' =
     Inr [get_cache_path ''cache'' ''k'' \<mapsto> JObj [(''timestamp'', JNum 10), (''data'', JStr ''x'')]] \<and>
   (\<exists>fs'. get_from_cache ''cache''
              [get_cache_path ''cache'' ''k'' \<mapsto> JObj [(''timestamp'', JNum 10), (''data'', JStr ''x'')]]
              (10 + CACHE_TIMEOUT + 1) ''k'' = Inr (JNull, fs') \<and>
           fs' (get_cache_path ''cache'' ''k'') = None)"
proof -
  have t: "(3611 :: real) - 10 > CACHE_TIMEOUT" by (simp add: CACHE_TIMEOUT_def)
  have s: "save_to_cache ''cache'' (\<lambda>path. None) Map.empty 10 (JStr ''x'') ''k'' =
     Inr [get_cache_path ''cache'' ''k'' \<mapsto> JObj [(''timestamp'', JNum 10), (''data'', JStr ''x'')]]"
    by (simp add: save_to_cache_def)
  from t s
    cache_miss_absent_or_expired [where fs = Map.empty and dir = "''cache''" and k = "''k''"
      and now = 5 and \<epsilon> = 1 and ?t0.0 = 10 and v = "JStr ''x''" and open_w = "\<lambda>path. None"
      and ?fs1.0 = "[get_cache_path ''cache'' ''k'' \<mapsto> JObj [(''timestamp'', JNum 10), (''data'', JStr ''x'')]]"]
    cache_miss_absent_or_expired
      [where fs = "[get_cache_path ''cache'' ''k'' \<mapsto> JObj [(''timestamp'', JNum 10), (''data'', JStr ''x'')]]"
        and dir = "''cache''" and k = "''k''" and ts = 10 and entry = "JObj [(''timestamp'', JNum 10), (''data'', JStr ''x'')]"
        and now = 3611]
  show ?thesis by simp
qed

section \<open>Deduplicator\<close>

lemma upt_0_2: "[0 ..< 2] = [0, Suc 0]"
  by (simp add: numeral_2_eq_2)

lemma upt_1_2: "[Suc 0 ..< 2] = [Suc 0]"
  by (simp add: numeral_2_eq_2)

lemma deduplicate_two:
  "deduplicate_chunks [x, y] (Inr [[d0, s], [s', d1]]) t = Inr (if s > t then [x] else [x, y])"
  by (simp add: deduplicate_chunks_def dedup_step_def mark_seen_def upt_0_2 upt_1_2)

text \<open>
  Claim C1, as stated, fails: at threshold 1.0 the two identical strings \<open>hello\<close>, whose
  computed cosine similarity is exactly 1.0, are both kept, because the comparison
  \<open>similarities[i][j] > threshold\<close> is strict.
\<close>

theorem deduplicate_identical_threshold_one_counterexample:
  "deduplicate_chunks [''hello'', ''hello''] (Inr [[1, 1], [1, 1]]) 1 \<noteq> Inr [''hello'']"
  by (simp add: deduplicate_two)

text \<open>
  Claim C1, amended. On two strings for which the vectorizer returns a matrix, with
  similarity \<open>s\<close> between them, the second string is dropped exactly when \<open>s > threshold\<close>;
  when the vectorizer raises, so does \<open>deduplicate_chunks\<close>. So two identical strings
  collapse to one entry for every threshold below their computed similarity, and at
  threshold 1.0 they are both kept unless rounding has put that similarity above 1.0; two
  strings of similarity 0, as for no shared term, are both kept for every threshold from 0.
\<close>

theorem deduplicate_two_chunks:
  "deduplicate_chunks [x, y] (Inr [[d0, s], [s', d1]]) t = Inr (if s > t then [x] else [x, y]) \<and>
   deduplicate_chunks [x, y] (Inl e) t = Inl e \<and>
   (t < s \<longrightarrow> deduplicate_chunks [x, x] (Inr [[d0, s], [s', d1]]) t = Inr [x]) \<and>
   (s \<le> 1 \<longrightarrow> deduplicate_chunks [x, x] (Inr [[d0, s], [s', d1]]) 1 = Inr [x, x]) \<and>
   (0 \<le> t \<longrightarrow> deduplicate_chunks [x, y] (Inr [[d0, 0], [0, d1]]) t = Inr [x, y])"
  by (simp add: deduplicate_two) (simp add: deduplicate_chunks_def)

theorem deduplicate_two_chunks_witness:
  "deduplicate_chunks [''ab cd'', ''ab cd'']
       (Inr [[1 + 1 / 2 ^ 52, 1 + 1 / 2 ^ 52], [1 + 1 / 2 ^ 52, 1 + 1 / 2 ^ 52]]) 1 = Inr [''ab cd''] \<and>
   deduplicate_chunks [''ab cd'', ''ab cd'']
       (Inr [[1 + 1 / 2 ^ 52, 1 + 1 / 2 ^ 52], [1 + 1 / 2 ^ 52, 1 + 1 / 2 ^ 52]]) (85 / 100) =
     Inr [''ab cd''] \<and>
   deduplicate_chunks [''hello'', ''hello''] (Inr [[1, 1], [1, 1]]) 1 = Inr [''hello'', ''hello''] \<and>
   deduplicate_chunks [''hello'', ''hello''] (Inr [[1, 1], [1, 1]]) (85 / 100) = Inr [''hello''] \<and>
   deduplicate_chunks [''hello'', ''world''] (Inr [[1, 0], [0, 1]]) 0 = Inr [''hello'', ''world''] \<and>
   deduplicate_chunks [''a'', ''b''] (Inl ValueError) (85 / 100) = Inl ValueError"
  using
    deduplicate_two_chunks [of "''ab cd''" "''ab cd''" "1 + 1 / 2 ^ 52" "1 + 1 / 2 ^ 52"
      "1 + 1 / 2 ^ 52" "1 + 1 / 2 ^ 52" 1]
    deduplicate_two_chunks [of "''ab cd''" "''ab cd''" "1 + 1 / 2 ^ 52" "1 + 1 / 2 ^ 52"
      "1 + 1 / 2 ^ 52" "1 + 1 / 2 ^ 52" "85 / 100"]
    deduplicate_two_chunks [of "''hello''" "''hello''" 1 1 1 1 1]
    deduplicate_two_chunks [of "''hello''" "''hello''" 1 1 1 1 "85 / 100"]
    deduplicate_two_chunks [of "''hello''" "''world''" 1 0 0 1 0]
    deduplicate_two_chunks [of "''a''" "''b''" 1 0 0 1 "85 / 100" ValueError]
  by simp

section \<open>Ingestion tracker\<close>

lemma fold_delete_map_of:
  "map_of (fold AList.delete rs l) k = (if k \<in> set rs then None else map_of l k)"
  by (induction rs arbitrary: l) (auto simp: delete_conv')

lemma new_file_step_eq:
  "new_file_step m f (acc, l) =
     (if is_new m l f then (acc @ [f], AList.update f (m f) l) else (acc, l))"
  by (simp add: new_file_step_def is_new_def)

lemma is_new_after_step:
  "is_new m (snd (new_file_step m f (acc, l))) g = (g \<noteq> f \<and> is_new m l g)"
  by (auto simp: new_file_step_eq is_new_def update_conv' split: option.splits)

lemma fold_new_none:
  "\<forall>f \<in> set fs. \<not> is_new m l f \<Longrightarrow> fold (new_file_step m) fs (acc, l) = (acc, l)"
  by (induction fs) (auto simp: new_file_step_eq)

lemma fold_new_set:
  "set (fst (fold (new_file_step m) fs (acc, l))) = set acc \<union> {f \<in> set fs. is_new m l f}"
proof (induction fs arbitrary: acc l)
  case Nil
  then show ?case by simp
next
  case (Cons f fs)
  obtain acc' l' where st: "new_file_step m f (acc, l) = (acc', l')" by (cases "new_file_step m f (acc, l)")
  have n: "\<And>g. is_new m l' g = (g \<noteq> f \<and> is_new m l g)"
    using is_new_after_step [of m f acc l] st by simp
  have a: "set acc' = set acc \<union> (if is_new m l f then {f} else {})"
    using st by (simp add: new_file_step_eq split: if_splits) auto
  have "set (fst (fold (new_file_step m) (f # fs) (acc, l))) =
        set (fst (fold (new_file_step m) fs (acc', l')))"
    by (simp add: st)
  also have "\<dots> = set acc' \<union> {g \<in> set fs. is_new m l' g}" by (rule Cons.IH)
  also have "\<dots> = set acc \<union> {g \<in> set (f # fs). is_new m l g}"
    unfolding a n by auto
  finally show ?case .
qed

lemma fold_new_map_of:
  "map_of (snd (fold (new_file_step m) fs (acc, l))) k =
     (if k \<in> set fs \<and> is_new m l k then Some (m k) else map_of l k)"
proof (induction fs arbitrary: acc l)
  case Nil
  then show ?case by simp
next
  case (Cons f fs)
  obtain acc' l' where st: "new_file_step m f (acc, l) = (acc', l')" by (cases "new_file_step m f (acc, l)")
  have n: "\<And>g. is_new m l' g = (g \<noteq> f \<and> is_new m l g)"
    using is_new_after_step [of m f acc l] st by simp
  have l': "map_of l' k = (if k = f \<and> is_new m l f then Some (m f) else map_of l k)"
    using st by (auto simp: new_file_step_eq update_conv' split: if_splits)
  have "map_of (snd (fold (new_file_step m) (f # fs) (acc, l))) k =
        map_of (snd (fold (new_file_step m) fs (acc', l'))) k"
    by (simp add: st)
  also have "\<dots> = (if k \<in> set fs \<and> is_new m l' k then Some (m k) else map_of l' k)"
    by (rule Cons.IH)
  also have "\<dots> = (if k \<in> set (f # fs) \<and> is_new m l k then Some (m k) else map_of l k)"
    unfolding l' n by auto
  finally show ?case .
qed

lemma check_new_files_unfold:
  fixes w :: world
  defines "l0 \<equiv> get_user_processed_files w"
  defines "rem \<equiv> filter (\<lambda>f. f \<notin> set (all_files w)) (map fst l0)"
  defines "l1 \<equiv> fold AList.delete rem l0"
  defines "r \<equiv> fold (new_file_step (getmtime w)) (all_files w) ([], l1)"
  shows "check_new_files w = ((fst r, rem), w\<lparr>state_file := Some (snd r)\<rparr>)"
  unfolding check_new_files_def Let_def l0_def rem_def l1_def r_def all_files_def
    save_user_processed_files_def
  by (simp add: case_prod_beta)

lemma pruned_map_of:
  "map_of (fold AList.delete (filter (\<lambda>f. f \<notin> A) (map fst l)) l) k =
     (if k \<in> A then map_of l k else None)"
proof -
  have "k \<notin> fst ` set l \<Longrightarrow> map_of l k = None" by (simp add: map_of_eq_None_iff)
  then show ?thesis by (auto simp: fold_delete_map_of)
qed

lemma is_new_pruned:
  "k \<in> A \<Longrightarrow> is_new m (fold AList.delete (filter (\<lambda>f. f \<notin> A) (map fst l)) l) k = is_new m l k"
  by (simp add: is_new_def pruned_map_of)

lemma check_removed:
  "snd (fst (check_new_files w)) =
     filter (\<lambda>f. f \<notin> set (all_files w)) (map fst (get_user_processed_files w))"
  by (simp add: check_new_files_unfold)

lemma check_new_set:
  "set (fst (fst (check_new_files w))) =
     {f \<in> set (all_files w). is_new (getmtime w) (get_user_processed_files w) f}"
  by (auto simp: check_new_files_unfold fold_new_set is_new_pruned)

lemma check_world:
  "\<exists>l'. snd (check_new_files w) = w\<lparr>state_file := Some l'\<rparr> \<and>
     (\<forall>k. map_of l' k =
        (if k \<in> set (all_files w)
         then (if is_new (getmtime w) (get_user_processed_files w) k then Some (getmtime w k)
               else map_of (get_user_processed_files w) k)
         else None))"
  by (auto simp: check_new_files_unfold fold_new_map_of is_new_pruned pruned_map_of)

lemma not_new_Some:
  "\<not> is_new m l f \<Longrightarrow> \<exists>t. map_of l f = Some t \<and> m f \<le> t"
  by (auto simp: is_new_def split: option.splits)

lemma check_twice:
  "check_new_files (snd (check_new_files w)) = (([], []), snd (check_new_files w))"
proof -
  obtain l' where w': "snd (check_new_files w) = w\<lparr>state_file := Some l'\<rparr>"
    and m: "\<And>k. map_of l' k =
        (if k \<in> set (all_files w)
         then (if is_new (getmtime w) (get_user_processed_files w) k then Some (getmtime w k)
               else map_of (get_user_processed_files w) k)
         else None)"
    using check_world [of w] by blast
  let ?w = "w\<lparr>state_file := Some l'\<rparr>"
  have af: "all_files ?w = all_files w" by (simp add: all_files_def)
  have l: "get_user_processed_files ?w = l'" by (simp add: get_user_processed_files_def)
  have keys: "\<forall>k \<in> set (map fst l'). k \<in> set (all_files w)"
  proof
    fix k assume "k \<in> set (map fst l')"
    then have "map_of l' k \<noteq> None" by (simp add: map_of_eq_None_iff)
    with m [of k] show "k \<in> set (all_files w)" by (auto split: if_splits)
  qed
  then have rem: "filter (\<lambda>f. f \<notin> set (all_files w)) (map fst l') = []"
    by (simp add: filter_empty_conv)
  have nn: "\<forall>f \<in> set (all_files w). \<not> is_new (getmtime w) l' f"
  proof
    fix f assume f: "f \<in> set (all_files w)"
    show "\<not> is_new (getmtime w) l' f"
    proof (cases "is_new (getmtime w) (get_user_processed_files w) f")
      case True
      with m [of f] f show ?thesis by (simp add: is_new_def)
    next
      case False
      with m [of f] f have "map_of l' f = map_of (get_user_processed_files w) f" by simp
      with False show ?thesis by (simp add: is_new_def)
    qed
  qed
  have "check_new_files ?w = (([], []), ?w)"
    by (simp add: check_new_files_unfold af l rem fold_new_none [OF nn])
  with w' show ?thesis by simp
qed

lemma check_first_empty_iff:
  "fst (check_new_files w) = ([], []) \<longleftrightarrow> in_sync w"
proof -
  have "fst (check_new_files w) = ([], []) \<longleftrightarrow>
        set (fst (fst (check_new_files w))) = {} \<and> snd (fst (check_new_files w)) = []"
    by (cases "fst (check_new_files w)") simp
  also have "\<dots> \<longleftrightarrow> in_sync w"
    unfolding check_new_set check_removed in_sync_def
    by (auto simp: filter_empty_conv list_all_iff)
  finally show ?thesis .
qed

lemma example_world_check:
  "check_new_files example_world =
     (([''a.pdf'', ''b.docx''], [''old.pdf'']),
      example_world\<lparr>state_file := Some [(''a.pdf'', 7), (''b.docx'', 3)]\<rparr>)"
  by (simp add: check_new_files_def example_world_def get_user_processed_files_def
      save_user_processed_files_def new_file_step_def)

text \<open>
  Claim C4, as stated, fails: the first of two calls reports what changed before it. With
  an empty workspace but for one file that the ledger does not record, the first call
  returns that file as new.
\<close>

theorem check_new_files_first_call_counterexample:
  "\<not> (fst (check_new_files
            \<lparr>pdf_files = [''a.pdf''], docx_files = [], getmtime = (\<lambda>f. 1),
             state_file = None, vectordb = None\<rparr>) = ([], []) \<and>
       fst (check_new_files (snd (check_new_files
            \<lparr>pdf_files = [''a.pdf''], docx_files = [], getmtime = (\<lambda>f. 1),
             state_file = None, vectordb = None\<rparr>))) = ([], []))"
  by (simp add: check_new_files_def get_user_processed_files_def
      save_user_processed_files_def new_file_step_def)

text \<open>
  Claim C4, amended. The second of two calls with no change of the folder in between
  returns empty lists of new and of removed files and leaves the saved ledger as the first
  call wrote it. The first call returns empty lists exactly when the ledger already agrees
  with the folder: every recorded path is listed, and every listed file is recorded with a
  time that is not older than its modification time.
\<close>

theorem check_new_files_second_call_empty:
  "fst (check_new_files (snd (check_new_files w))) = ([], []) \<and>
   snd (check_new_files (snd (check_new_files w))) = snd (check_new_files w) \<and>
   (fst (check_new_files w) = ([], []) \<longleftrightarrow> in_sync w)"
  by (simp add: check_twice check_first_empty_iff)

theorem check_new_files_second_call_empty_witness:
  "fst (check_new_files example_world) = ([''a.pdf'', ''b.docx''], [''old.pdf'']) \<and>
   fst (check_new_files (snd (check_new_files example_world))) = ([], []) \<and>
   snd (check_new_files (snd (check_new_files example_world))) =
     example_world\<lparr>state_file := Some [(''a.pdf'', 7), (''b.docx'', 3)]\<rparr> \<and>
   \<not> in_sync example_world"
  using check_new_files_second_call_empty [of example_world]
  by (simp add: example_world_check)

text \<open>
  Claim C9. After a call of \<open>check_new_files\<close>, whatever the ledger held before, the saved
  ledger has exactly the listed \<open>.pdf\<close> and \<open>.docx\<close> paths as keys: a removed path has no
  entry, a path reported as new or updated has its current modification time, and every
  other listed path keeps the time recorded before, which is not older than its
  modification time.
\<close>

theorem check_new_files_ledger_keys:
  "\<exists>l'. state_file (snd (check_new_files w)) = Some l' \<and>
     fst ` set l' = set (pdf_files w @ docx_files w) \<and>
     (\<forall>f \<in> set (snd (fst (check_new_files w))). map_of l' f = None) \<and>
     (\<forall>f \<in> set (pdf_files w @ docx_files w).
        (f \<in> set (fst (fst (check_new_files w))) \<longrightarrow> map_of l' f = Some (getmtime w f)) \<and>
        (f \<notin> set (fst (fst (check_new_files w))) \<longrightarrow>
           map_of l' f = map_of (get_user_processed_files w) f \<and>
           (\<exists>t. map_of l' f = Some t \<and> getmtime w f \<le> t)))"
proof -
  let ?l0 = "get_user_processed_files w"
  obtain l' where w': "snd (check_new_files w) = w\<lparr>state_file := Some l'\<rparr>"
    and m: "\<And>k. map_of l' k =
        (if k \<in> set (all_files w)
         then (if is_new (getmtime w) ?l0 k then Some (getmtime w k) else map_of ?l0 k)
         else None)"
    using check_world [of w] by blast
  have af: "all_files w = pdf_files w @ docx_files w" by (simp add: all_files_def)
  have st: "state_file (snd (check_new_files w)) = Some l'" by (simp add: w')
  have "dom (map_of l') = set (all_files w)"
  proof (rule set_eqI)
    fix k
    show "k \<in> dom (map_of l') \<longleftrightarrow> k \<in> set (all_files w)"
      using m [of k] not_new_Some [of "getmtime w" ?l0 k] by (auto simp: domIff)
  qed
  then have keys: "fst ` set l' = set (pdf_files w @ docx_files w)"
    by (simp add: dom_map_of_conv_image_fst af)
  have rem: "\<forall>f \<in> set (snd (fst (check_new_files w))). map_of l' f = None"
    using m by (simp add: check_removed)
  have cur: "\<forall>f \<in> set (pdf_files w @ docx_files w).
        (f \<in> set (fst (fst (check_new_files w))) \<longrightarrow> map_of l' f = Some (getmtime w f)) \<and>
        (f \<notin> set (fst (fst (check_new_files w))) \<longrightarrow>
           map_of l' f = map_of ?l0 f \<and> (\<exists>t. map_of l' f = Some t \<and> getmtime w f \<le> t))"
  proof
    fix f assume f: "f \<in> set (pdf_files w @ docx_files w)"
    then have fa: "f \<in> set (all_files w)" by (simp add: af)
    have new: "f \<in> set (fst (fst (check_new_files w))) \<longleftrightarrow> is_new (getmtime w) ?l0 f"
      using fa by (simp add: check_new_set)
    show "(f \<in> set (fst (fst (check_new_files w))) \<longrightarrow> map_of l' f = Some (getmtime w f)) \<and>
        (f \<notin> set (fst (fst (check_new_files w))) \<longrightarrow>
           map_of l' f = map_of ?l0 f \<and> (\<exists>t. map_of l' f = Some t \<and> getmtime w f \<le> t))"
      using m [of f] fa not_new_Some [of "getmtime w" ?l0 f] by (simp add: new)
  qed
  from st keys rem cur show ?thesis by blast
qed

theorem check_new_files_ledger_keys_witness:
  "\<exists>l'. state_file (snd (check_new_files example_world)) = Some l' \<and>
     fst ` set l' = {''a.pdf'', ''b.docx''} \<and>
     map_of l' ''old.pdf'' = None \<and>
     map_of l' ''a.pdf'' = Some 7 \<and>
     map_of l' ''b.docx'' = Some 3"
  using check_new_files_ledger_keys [of example_world]
  by (simp add: example_world_check)

section \<open>Document pipeline\<close>

lemma check_new_files_frame:
  "pdf_files (snd (check_new_files w)) = pdf_files w \<and>
   docx_files (snd (check_new_files w)) = docx_files w \<and>
   vectordb (snd (check_new_files w)) = vectordb w \<and>
   getmtime (snd (check_new_files w)) = getmtime w"
  by (simp add: check_new_files_unfold)

lemma is_ingest_DeleteBySource: "e \<in> set (map DeleteBySource fs) \<Longrightarrow> \<not> is_ingest_event e"
  by auto

text \<open>
  Claim C6. When \<open>check_new_files\<close> reports no new or updated file, the document folder
  still lists a supported file and the index folder exists, \<open>store_chroma_function\<close>
  returns the handle on that index and makes no call that extracts, splits or embeds: it
  only opens the index and deletes the chunks of removed files. The index keeps every
  chunk of a file that was not removed, and is unchanged when no file was removed.
\<close>

theorem store_chroma_function_no_new_files:
  "fst (fst (check_new_files w)) = [] \<and> pdf_files w @ docx_files w \<noteq> [] \<and> vectordb w \<noteq> None \<longrightarrow>
     (\<exists>w' trace.
        store_chroma_function L vectordb_folder w = Inr (Some (Chroma vectordb_folder), w', trace) \<and>
        (\<forall>e \<in> set trace. \<not> is_ingest_event e) \<and>
        trace = OpenIndex # map DeleteBySource (snd (fst (check_new_files w))) \<and>
        vectordb w' =
          map_option (filter (\<lambda>(text, source). source \<notin> set (snd (fst (check_new_files w)))))
            (vectordb w) \<and>
        (snd (fst (check_new_files w)) = [] \<longrightarrow> vectordb w' = vectordb w))"
proof
  assume a: "fst (fst (check_new_files w)) = [] \<and> pdf_files w @ docx_files w \<noteq> [] \<and> vectordb w \<noteq> None"
  obtain rem w1 where c: "check_new_files w = (([], rem), w1)"
    using a by (cases "check_new_files w") auto
  have fr: "pdf_files w1 = pdf_files w" "docx_files w1 = docx_files w" "vectordb w1 = vectordb w"
    using check_new_files_frame [of w] c by simp_all
  obtain stored where s: "vectordb w = Some stored" using a by auto
  let ?w' = "if rem = [] then w1
             else w1\<lparr>vectordb := Some (filter (\<lambda>(text, source). source \<notin> set rem) stored)\<rparr>"
  let ?tr = "OpenIndex # map DeleteBySource rem"
  have res: "store_chroma_function L vectordb_folder w = Inr (Some (Chroma vectordb_folder), ?w', ?tr)"
  proof -
    from a have ne: "\<not> (pdf_files w = [] \<and> docx_files w = [])" by simp
    show ?thesis
      by (cases "rem = []") (simp_all add: store_chroma_function_def c fr s ne)
  qed
  have ev: "\<forall>e \<in> set ?tr. \<not> is_ingest_event e" by auto
  have db: "vectordb ?w' = map_option (filter (\<lambda>(text, source). source \<notin> set rem)) (vectordb w)"
    by (simp add: fr s)
  have un: "rem = [] \<longrightarrow> vectordb ?w' = vectordb w" by (simp add: fr)
  from res ev db un c
  show "\<exists>w' trace.
        store_chroma_function L vectordb_folder w = Inr (Some (Chroma vectordb_folder), w', trace) \<and>
        (\<forall>e \<in> set trace. \<not> is_ingest_event e) \<and>
        trace = OpenIndex # map DeleteBySource (snd (fst (check_new_files w))) \<and>
        vectordb w' =
          map_option (filter (\<lambda>(text, source). source \<notin> set (snd (fst (check_new_files w)))))
            (vectordb w) \<and>
        (snd (fst (check_new_files w)) = [] \<longrightarrow> vectordb w' = vectordb w)"
    by (intro exI [of _ ?w'] exI [of _ ?tr]) simp
qed

lemma synced_world_check:
  "check_new_files (example_world\<lparr>state_file := Some [(''old.pdf'', 1), (''a.pdf'', 7), (''b.docx'', 3)]\<rparr>) =
     (([], [''old.pdf'']),
      example_world\<lparr>state_file := Some [(''a.pdf'', 7), (''b.docx'', 3)]\<rparr>)"
  by (simp add: check_new_files_def example_world_def get_user_processed_files_def
      save_user_processed_files_def new_file_step_def)

theorem store_chroma_function_no_new_files_witness:
  "fst (fst (check_new_files
      (example_world\<lparr>state_file := Some [(''old.pdf'', 1), (''a.pdf'', 7), (''b.docx'', 3)]\<rparr>))) = [] \<and>
   (\<exists>w'. store_chroma_function example_libs ''vector_db_u''
            (example_world\<lparr>state_file := Some [(''old.pdf'', 1), (''a.pdf'', 7), (''b.docx'', 3)]\<rparr>) =
          Inr (Some (Chroma ''vector_db_u''), w', [OpenIndex, DeleteBySource ''old.pdf'']) \<and>
          vectordb w' = Some [(''a text'', ''a.pdf'')])"
  using store_chroma_function_no_new_files
    [of "example_world\<lparr>state_file := Some [(''old.pdf'', 1), (''a.pdf'', 7), (''b.docx'', 3)]\<rparr>"
        example_libs "''vector_db_u''"]
  by (simp add: synced_world_check) (simp add: example_world_def)

section \<open>Quiz generator\<close>

lemma slice_to_length: "0 \<le> n \<Longrightarrow> int (length (slice_to xs n)) \<le> n"
  by (simp add: slice_to_def)

lemma py_slice_to_iter:
  "1 \<le> n \<Longrightarrow> py_slice_to q n = Inr q' \<Longrightarrow> \<exists>qs. py_iter q' = Inr qs \<and> int (length qs) \<le> n"
  by (cases q) (auto simp: slice_to_def)

lemma quiz_batch_iter:
  assumes "1 \<le> p_num_questions params"
  shows "\<exists>qs. py_iter (generate_quiz_from_batch M batch params) = Inr qs \<and>
               int (length qs) \<le> p_num_questions params"
proof -
  have e: "\<exists>qs. py_iter (JArr []) = Inr qs \<and> int (length qs) \<le> p_num_questions params"
    using assms by simp
  have s: "\<And>q. \<exists>qs. py_iter (case py_slice_to q (p_num_questions params) of
                                  Inl e \<Rightarrow> JArr [] | Inr q' \<Rightarrow> q') = Inr qs \<and>
                        int (length qs) \<le> p_num_questions params"
  proof -
    fix q
    show "\<exists>qs. py_iter (case py_slice_to q (p_num_questions params) of
                                  Inl e \<Rightarrow> JArr [] | Inr q' \<Rightarrow> q') = Inr qs \<and>
                        int (length qs) \<le> p_num_questions params"
    proof (cases "py_slice_to q (p_num_questions params)")
      case (Inl a)
      then show ?thesis using e by simp
    next
      case (Inr q')
      then show ?thesis using py_slice_to_iter [OF assms Inr] by simp
    qed
  qed
  have nz: "p_num_questions params \<noteq> 0" using assms by simp
  show ?thesis
    unfolding generate_quiz_from_batch_def Let_def
    using e s nz by (simp split: sum.split option.split)
qed

lemma quiz_loop_done:
  "questions_needed \<le> int (length acc) \<Longrightarrow>
   quiz_loop M questions_needed batches params acc calls = Inr (acc, calls)"
  by (cases batches) simp_all

lemma quiz_loop_step:
  assumes "int (length acc) < questions_needed"
  shows "\<exists>qs. py_iter (generate_quiz_from_batch M batch
                  (params\<lparr>p_num_questions := min (questions_needed - int (length acc)) 5\<rparr>)) = Inr qs \<and>
           int (length qs) \<le> min (questions_needed - int (length acc)) 5 \<and>
           quiz_loop M questions_needed (batch # batches) params acc calls =
           quiz_loop M questions_needed batches
             (params\<lparr>p_num_questions := min (questions_needed - int (length acc)) 5\<rparr>)
             (acc @ qs) (calls @ [(batch, min (questions_needed - int (length acc)) 5)])"
proof -
  let ?n = "min (questions_needed - int (length acc)) 5"
  let ?p = "params\<lparr>p_num_questions := ?n\<rparr>"
  have "1 \<le> p_num_questions ?p" using assms by simp
  from quiz_batch_iter [OF this, of M batch]
  obtain qs where qs: "py_iter (generate_quiz_from_batch M batch ?p) = Inr qs"
    and len: "int (length qs) \<le> ?n" by auto
  have "quiz_loop M questions_needed (batch # batches) params acc calls =
        quiz_loop M questions_needed batches ?p (acc @ qs) (calls @ [(batch, ?n)])"
    using assms qs by (simp add: Let_def)
  with qs len show ?thesis by blast
qed

lemma quiz_loop_params:
  "quiz_loop M n batches (params\<lparr>p_num_questions := k\<rparr>) acc calls =
   quiz_loop M n batches params acc calls"
  by (cases batches) (simp_all add: Let_def)

lemma quiz_loop_total:
  "\<exists>A C. quiz_loop M n batches params acc calls = Inr (A, C)"
proof (induction batches arbitrary: params acc calls)
  case Nil
  then show ?case by simp
next
  case (Cons b bs)
  show ?case
  proof (cases "n \<le> int (length acc)")
    case True
    then show ?thesis by (simp add: quiz_loop_done)
  next
    case False
    then have "int (length acc) < n" by simp
    from quiz_loop_step [OF this, of M b params bs calls] Cons.IH show ?thesis by metis
  qed
qed

lemma quiz_loop_append:
  "quiz_loop M n (xs @ ys) params acc calls =
     (case quiz_loop M n xs params acc calls of
        Inl e \<Rightarrow> Inl e
      | Inr (A, C) \<Rightarrow> quiz_loop M n ys params A C)"
proof (induction xs arbitrary: params acc calls)
  case Nil
  then show ?case by simp
next
  case (Cons b bs)
  show ?case
  proof (cases "n \<le> int (length acc)")
    case True
    then show ?thesis by (simp add: quiz_loop_done)
  next
    case False
    then have lt: "int (length acc) < n" by simp
    let ?k = "min (n - int (length acc)) 5"
    let ?p = "params\<lparr>p_num_questions := ?k\<rparr>"
    from quiz_loop_step [OF lt, of M b params]
    obtain qs where st: "\<And>batches calls. quiz_loop M n (b # batches) params acc calls =
         quiz_loop M n batches ?p (acc @ qs) (calls @ [(b, ?k)])"
      by (metis (no_types, lifting) Inr_inject)
    have "quiz_loop M n ((b # bs) @ ys) params acc calls =
          quiz_loop M n (bs @ ys) ?p (acc @ qs) (calls @ [(b, ?k)])"
      by (simp only: append_Cons st [of "bs @ ys" calls])
    also have "\<dots> = (case quiz_loop M n bs ?p (acc @ qs) (calls @ [(b, ?k)]) of
        Inl e \<Rightarrow> Inl e | Inr (A, C) \<Rightarrow> quiz_loop M n ys ?p A C)"
      by (rule Cons.IH)
    also have "\<dots> = (case quiz_loop M n (b # bs) params acc calls of
        Inl e \<Rightarrow> Inl e | Inr (A, C) \<Rightarrow> quiz_loop M n ys ?p A C)"
      by (simp only: st [of bs calls])
    also have "\<dots> = (case quiz_loop M n (b # bs) params acc calls of
        Inl e \<Rightarrow> Inl e | Inr (A, C) \<Rightarrow> quiz_loop M n ys params A C)"
      by (simp only: quiz_loop_params)
    finally show ?thesis .
  qed
qed

text \<open>What a run of the loop leaves: the calls extend those before by one call per processed
  batch, and the loop stops early only when enough questions are there.\<close>

lemma quiz_loop_shape:
  assumes "quiz_loop M n batches params acc calls = Inr (A, C)"
  shows "\<exists>new skipped. C = calls @ new \<and> batches = map fst new @ skipped \<and>
           (skipped \<noteq> [] \<longrightarrow> n \<le> int (length A)) \<and>
           (\<exists>more. A = acc @ more) \<and>
           int (length A) \<le> max (int (length acc)) n"
  using assms
proof (induction batches arbitrary: params acc calls)
  case Nil
  then show ?case by auto
next
  case (Cons b bs)
  show ?case
  proof (cases "n \<le> int (length acc)")
    case True
    with Cons.prems have "A = acc" "C = calls" by (simp_all add: quiz_loop_done)
    with True show ?thesis by auto
  next
    case False
    then have lt: "int (length acc) < n" by simp
    let ?k = "min (n - int (length acc)) 5"
    let ?p = "params\<lparr>p_num_questions := ?k\<rparr>"
    from quiz_loop_step [OF lt, of M b params bs calls]
    obtain qs where len: "int (length qs) \<le> ?k"
      and st: "quiz_loop M n (b # bs) params acc calls =
         quiz_loop M n bs ?p (acc @ qs) (calls @ [(b, ?k)])"
      by blast
    from st Cons.prems have "quiz_loop M n bs ?p (acc @ qs) (calls @ [(b, ?k)]) = Inr (A, C)"
      by simp
    from Cons.IH [OF this]
    obtain new skipped more where ih: "C = (calls @ [(b, ?k)]) @ new" "bs = map fst new @ skipped"
      "skipped \<noteq> [] \<longrightarrow> n \<le> int (length A)" "A = (acc @ qs) @ more"
      "int (length A) \<le> max (int (length (acc @ qs))) n"
      by blast
    have 1: "C = calls @ ((b, ?k) # new)" using ih(1) by simp
    have 2: "b # bs = map fst ((b, ?k) # new) @ skipped" using ih(2) by simp
    have 3: "\<exists>more. A = acc @ more" using ih(4) by simp
    have 4: "int (length A) \<le> max (int (length acc)) n" using ih(5) len lt by simp
    from 1 2 3 4 ih(3) show ?thesis by blast
  qed
qed

lemma quiz_loop_calls_length:
  assumes "quiz_loop M n batches params acc calls = Inr (A, C)"
  shows "length C \<le> length calls + length batches \<and>
         (int (length A) < n \<longrightarrow> length C = length calls + length batches)"
proof -
  from quiz_loop_shape [OF assms]
  obtain new skipped where s: "C = calls @ new" "batches = map fst new @ skipped"
    "skipped \<noteq> [] \<longrightarrow> n \<le> int (length A)" by blast
  from s(2) have "length batches = length new + length skipped"
    by (metis length_append length_map)
  with s(1,3) show ?thesis by auto
qed

lemma quiz_loop_call:
  assumes run: "quiz_loop M n batches params [] [] = Inr (A, C)" and i: "i < length C"
  shows "\<exists>Ai Ci qs.
           quiz_loop M n (take i batches) params [] [] = Inr (Ai, Ci) \<and>
           int (length Ai) < n \<and>
           C ! i = (batches ! i, min (n - int (length Ai)) 5) \<and>
           py_iter (generate_quiz_from_batch M (batches ! i)
                      (params\<lparr>p_num_questions := min (n - int (length Ai)) 5\<rparr>)) = Inr qs \<and>
           int (length qs) \<le> min (n - int (length Ai)) 5"
proof -
  from quiz_loop_calls_length [OF run] have Cb: "length C \<le> length batches" by simp
  with i have ib: "i < length batches" by simp
  obtain Ai Ci where pre: "quiz_loop M n (take i batches) params [] [] = Inr (Ai, Ci)"
    using quiz_loop_total [of M n "take i batches" params "[]" "[]"] by blast
  have "quiz_loop M n (take i batches @ drop i batches) params [] [] = Inr (A, C)"
    using run by simp
  then have rest: "quiz_loop M n (drop i batches) params Ai Ci = Inr (A, C)"
    by (simp only: quiz_loop_append pre sum.case prod.case)
  from quiz_loop_calls_length [OF pre] ib
  have Ci: "length Ci \<le> i" "int (length Ai) < n \<longrightarrow> length Ci = i" by simp_all
  have lt: "int (length Ai) < n"
  proof (rule ccontr)
    assume "\<not> int (length Ai) < n"
    then have "n \<le> int (length Ai)" by simp
    with rest have "C = Ci" by (simp add: quiz_loop_done)
    with Ci(1) i show False by simp
  qed
  with Ci have len: "length Ci = i" by simp
  let ?k = "min (n - int (length Ai)) 5"
  let ?p = "params\<lparr>p_num_questions := ?k\<rparr>"
  have d: "drop i batches = batches ! i # drop (Suc i) batches"
    using ib by (simp add: Cons_nth_drop_Suc)
  from quiz_loop_step [OF lt, of M "batches ! i" params "drop (Suc i) batches" Ci]
  obtain qs where qs: "py_iter (generate_quiz_from_batch M (batches ! i) ?p) = Inr qs"
    and ql: "int (length qs) \<le> ?k"
    and st: "quiz_loop M n (batches ! i # drop (Suc i) batches) params Ai Ci =
             quiz_loop M n (drop (Suc i) batches) ?p (Ai @ qs) (Ci @ [(batches ! i, ?k)])"
    by blast
  from rest d st
  have "quiz_loop M n (drop (Suc i) batches) ?p (Ai @ qs) (Ci @ [(batches ! i, ?k)]) = Inr (A, C)"
    by simp
  from quiz_loop_shape [OF this] obtain new where "C = (Ci @ [(batches ! i, ?k)]) @ new" by blast
  then have "C ! i = (batches ! i, ?k)" using len by (simp add: nth_append)
  with pre lt qs ql show ?thesis by blast
qed

lemma quiz_batch_yield:
  assumes "batch_questions M (p_difficulty params) batch = Some qs" "1 \<le> p_num_questions params"
  shows "generate_quiz_from_batch M batch params = JArr (take (nat (p_num_questions params)) qs)"
  using assms
  by (auto simp: generate_quiz_from_batch_def batch_questions_def raw_questions_def slice_to_def
      Let_def split: sum.splits option.splits json.splits if_splits)

lemma take_take_append: "take m (take m r @ ys) = take m (r @ ys)"
  by (cases "m \<le> length r") (simp_all add: min_def)

lemma quiz_loop_yield:
  assumes "p_difficulty params = d" "0 \<le> n" "n \<le> 5"
    "map (batch_questions M d) batches = map Some raws" "int (length acc) \<le> n"
  shows "\<exists>A C. quiz_loop M n batches params acc calls = Inr (A, C) \<and>
               take (nat n) A = take (nat n) (acc @ concat raws)"
  using assms
proof (induction batches arbitrary: params acc calls raws)
  case Nil
  then show ?case by simp
next
  case (Cons b bs)
  from Cons.prems(4) obtain r rs where raws: "raws = r # rs" and r: "batch_questions M d b = Some r"
    and rs: "map (batch_questions M d) bs = map Some rs"
    by (cases raws) auto
  show ?case
  proof (cases "n \<le> int (length acc)")
    case True
    with Cons.prems(5) have "nat n = length acc" by simp
    with True show ?thesis by (simp add: quiz_loop_done)
  next
    case False
    then have lt: "int (length acc) < n" by simp
    let ?k = "n - int (length acc)"
    have k: "min ?k 5 = ?k" using Cons.prems(3) by simp
    let ?p = "params\<lparr>p_num_questions := ?k\<rparr>"
    have g: "generate_quiz_from_batch M b ?p = JArr (take (nat ?k) r)"
      using quiz_batch_yield [of M ?p b r] Cons.prems(1) r lt by simp
    have st: "quiz_loop M n (b # bs) params acc calls =
              quiz_loop M n bs ?p (acc @ take (nat ?k) r) (calls @ [(b, ?k)])"
      using lt by (simp add: Let_def k g)
    have len: "int (length (acc @ take (nat ?k) r)) \<le> n" using lt by simp
    have pd: "p_difficulty ?p = d" using Cons.prems(1) by simp
    from Cons.IH [OF pd Cons.prems(2,3) rs len, of "calls @ [(b, ?k)]"]
    obtain A C where run: "quiz_loop M n bs ?p (acc @ take (nat ?k) r) (calls @ [(b, ?k)]) = Inr (A, C)"
      and tk: "take (nat n) A = take (nat n) ((acc @ take (nat ?k) r) @ concat rs)" by blast
    have nk: "nat n - length acc = nat ?k" using lt by simp
    have "take (nat n) ((acc @ take (nat ?k) r) @ concat rs) =
          acc @ take (nat ?k) (take (nat ?k) r @ concat rs)"
      using lt by (simp add: nk)
    also have "\<dots> = acc @ take (nat ?k) (r @ concat rs)" by (simp only: take_take_append)
    also have "\<dots> = take (nat n) (acc @ concat raws)" using lt by (simp add: raws nk)
    finally have "take (nat n) A = take (nat n) (acc @ concat raws)" using tk by simp
    with run st show ?thesis by simp
  qed
qed

lemma upt_0_3: "[0 ..< 3] = [0, Suc 0, 2]"
  by (simp add: upt_rec numeral_3_eq_3 numeral_2_eq_2)

lemma generate_quiz_batched:
  "generate_quiz M text_chunks similarities params =
     (case batched_chunks text_chunks similarities (p_similarity_threshold params) (p_batch_size params) of
        Inl e \<Rightarrow> Inl e
      | Inr batches \<Rightarrow>
          (case quiz_loop M (p_num_questions params) batches params [] [] of
             Inl e \<Rightarrow> Inl e
           | Inr (A, C) \<Rightarrow> Inr (slice_to A (p_num_questions params), C)))"
  by (simp add: generate_quiz_def batched_chunks_def split: sum.split)

lemma example_batches:
  "batched_chunks [''c1'', ''c2'', ''c3''] (Inr [[1, 0, 0], [0, 1, 0], [0, 0, 1]])
      (p_similarity_threshold example_params) (p_batch_size example_params) =
   Inr [''c1'', ''c2'', ''c3'']"
  by (simp add: batched_chunks_def example_params_def deduplicate_chunks_def dedup_step_def mark_seen_def
      upt_0_3 upt_rec [of 1 3] upt_rec [of 2 3] upt_rec [of 3 3] batch_chunks_def batch_loop.simps)

lemma example_raw:
  "map (batch_questions example_llm ''mixed'') [''c1'', ''c2'', ''c3''] =
   map Some [[JStr ''q1'', JStr ''q2''], [JStr ''q3'', JStr ''q4'', JStr ''q5'', JStr ''q6''],
             [JStr ''q7'', JStr ''q8'', JStr ''q9'', JStr ''q10'']]"
  by (simp add: batch_questions_def raw_questions_def example_llm_def strip_def strip_chars_def
      is_space_def)

text \<open>
  Claim C5. For the batches that \<open>generate_quiz\<close> builds, \<open>batches\<close>:
  \<^item> it returns, and returns at most \<open>num_questions\<close> questions;
  \<^item> the model is called on an initial segment of the batches, in order, and a batch is
    skipped only when \<open>num_questions\<close> questions are there;
  \<^item> the \<open>i\<close>-th call is made only while the earlier batches have given fewer than
    \<open>num_questions\<close> questions, asks for the minimum of 5 and the number still needed, and
    adds at most that many questions;
  \<^item> with \<open>num_questions\<close> at most 5 (3, say) and every response a list of questions
    (for a difficulty other than \<open>mixed\<close>: its questions of that difficulty), the result is
    the first \<open>num_questions\<close> of all these questions in batch order: three questions out of
    ten, from the earliest batches.
\<close>

theorem generate_quiz_batch_requests:
  assumes "batched_chunks text_chunks similarities (p_similarity_threshold params)
             (p_batch_size params) = Inr batches"
  shows "\<exists>questions calls.
     generate_quiz M text_chunks similarities params = Inr (questions, calls) \<and>
     int (length questions) \<le> max 0 (p_num_questions params) \<and>
     (\<exists>skipped. batches = map fst calls @ skipped \<and>
        (skipped \<noteq> [] \<longrightarrow> p_num_questions params \<le> int (length questions))) \<and>
     (\<forall>i < length calls. \<exists>acc c qs.
        quiz_loop M (p_num_questions params) (take i batches) params [] [] = Inr (acc, c) \<and>
        int (length acc) < p_num_questions params \<and>
        calls ! i = (batches ! i, min (p_num_questions params - int (length acc)) 5) \<and>
        py_iter (generate_quiz_from_batch M (batches ! i)
                   (params\<lparr>p_num_questions := min (p_num_questions params - int (length acc)) 5\<rparr>)) =
          Inr qs \<and>
        int (length qs) \<le> min (p_num_questions params - int (length acc)) 5) \<and>
     (0 \<le> p_num_questions params \<and> p_num_questions params \<le> 5 \<and>
      map (batch_questions M (p_difficulty params)) batches = map Some raws \<longrightarrow>
        questions = take (nat (p_num_questions params)) (concat raws))"
proof -
  let ?n = "p_num_questions params"
  obtain A C where run: "quiz_loop M ?n batches params [] [] = Inr (A, C)"
    using quiz_loop_total [of M ?n batches params "[]" "[]"] by blast
  have res: "generate_quiz M text_chunks similarities params = Inr (slice_to A ?n, C)"
    by (simp add: generate_quiz_batched assms run)
  from quiz_loop_shape [OF run]
  obtain skipped where sk: "batches = map fst C @ skipped" "skipped \<noteq> [] \<longrightarrow> ?n \<le> int (length A)"
    and le: "int (length A) \<le> max 0 ?n" by auto
  have 1: "int (length (slice_to A ?n)) \<le> max 0 ?n"
    using le by (auto simp: slice_to_def)
  have 2: "skipped \<noteq> [] \<longrightarrow> ?n \<le> int (length (slice_to A ?n))"
    using sk(2) le by (auto simp: slice_to_def)
  have 3: "\<forall>i < length C. \<exists>acc c qs.
        quiz_loop M ?n (take i batches) params [] [] = Inr (acc, c) \<and>
        int (length acc) < ?n \<and>
        C ! i = (batches ! i, min (?n - int (length acc)) 5) \<and>
        py_iter (generate_quiz_from_batch M (batches ! i)
                   (params\<lparr>p_num_questions := min (?n - int (length acc)) 5\<rparr>)) = Inr qs \<and>
        int (length qs) \<le> min (?n - int (length acc)) 5"
    using quiz_loop_call [OF run] by blast
  have 4: "0 \<le> ?n \<and> ?n \<le> 5 \<and>
      map (batch_questions M (p_difficulty params)) batches = map Some raws \<longrightarrow>
        slice_to A ?n = take (nat ?n) (concat raws)"
  proof
    assume a: "0 \<le> ?n \<and> ?n \<le> 5 \<and>
      map (batch_questions M (p_difficulty params)) batches = map Some raws"
    then have "\<exists>A' C'. quiz_loop M ?n batches params [] [] = Inr (A', C') \<and>
               take (nat ?n) A' = take (nat ?n) ([] @ concat raws)"
      by (intro quiz_loop_yield [where d = "p_difficulty params"]) simp_all
    with run have "take (nat ?n) A = take (nat ?n) (concat raws)" by simp
    with a show "slice_to A ?n = take (nat ?n) (concat raws)" by (simp add: slice_to_def)
  qed
  from res 1 2 3 4 sk(1) show ?thesis by blast
qed

theorem generate_quiz_batch_requests_witness:
  "\<exists>questions calls.
     generate_quiz example_llm [''c1'', ''c2'', ''c3''] (Inr [[1, 0, 0], [0, 1, 0], [0, 0, 1]])
         example_params =
       Inr (questions, calls) \<and>
     questions = [JStr ''q1'', JStr ''q2'', JStr ''q3''] \<and>
     (\<exists>skipped. [''c1'', ''c2'', ''c3''] = map fst calls @ skipped)"
proof -
  have n: "p_num_questions example_params = 3" "p_difficulty example_params = ''mixed''"
    by (simp_all add: example_params_def)
  from generate_quiz_batch_requests [OF example_batches, of example_llm
      "[[JStr ''q1'', JStr ''q2''], [JStr ''q3'', JStr ''q4'', JStr ''q5'', JStr ''q6''],
        [JStr ''q7'', JStr ''q8'', JStr ''q9'', JStr ''q10'']]"]
  obtain questions calls where
    r: "generate_quiz example_llm [''c1'', ''c2'', ''c3''] (Inr [[1, 0, 0], [0, 1, 0], [0, 0, 1]])
         example_params =
       Inr (questions, calls)"
    and s: "\<exists>skipped. [''c1'', ''c2'', ''c3''] = map fst calls @ skipped"
    and q: "0 \<le> p_num_questions example_params \<and>
      p_num_questions example_params \<le> 5 \<and>
      map (batch_questions example_llm (p_difficulty example_params)) [''c1'', ''c2'', ''c3''] =
        map Some [[JStr ''q1'', JStr ''q2''], [JStr ''q3'', JStr ''q4'', JStr ''q5'', JStr ''q6''],
        [JStr ''q7'', JStr ''q8'', JStr ''q9'', JStr ''q10'']] \<longrightarrow>
        questions = take (nat (p_num_questions example_params))
          (concat [[JStr ''q1'', JStr ''q2''], [JStr ''q3'', JStr ''q4'', JStr ''q5'', JStr ''q6''],
        [JStr ''q7'', JStr ''q8'', JStr ''q9'', JStr ''q10'']])"
    by blast
  from q have "questions = [JStr ''q1'', JStr ''q2'', JStr ''q3'']"
    by (simp add: n example_raw [simplified] numeral_3_eq_3)
  with r s show ?thesis by blast
qed

section \<open>Parse failures in the generators\<close>

lemma quiz_fail_empty:
  "quiz_parse_fails M batch \<Longrightarrow> generate_quiz_from_batch M batch params = JArr []"
  by (auto simp: quiz_parse_fails_def generate_quiz_from_batch_def split: sum.splits)

lemma quiz_loop_questions_calls:
  "map_sum id fst (quiz_loop M n batches params acc calls) =
   map_sum id fst (quiz_loop M n batches params acc calls')"
proof (induction batches arbitrary: params acc calls calls')
  case Nil
  then show ?case by simp
next
  case (Cons b bs)
  show ?case
  proof (cases "n \<le> int (length acc)")
    case True
    then show ?thesis by (simp add: quiz_loop_done)
  next
    case False
    then have lt: "int (length acc) < n" by simp
    let ?k = "min (n - int (length acc)) 5"
    let ?p = "params\<lparr>p_num_questions := ?k\<rparr>"
    from quiz_loop_step [OF lt, of M b params]
    obtain qs where st: "\<And>batches calls. quiz_loop M n (b # batches) params acc calls =
         quiz_loop M n batches ?p (acc @ qs) (calls @ [(b, ?k)])"
      by (metis (no_types, lifting) Inr_inject)
    show ?thesis
      by (simp only: st) (rule Cons.IH)
  qed
qed

lemma quiz_loop_skip_failed:
  assumes "quiz_parse_fails M b"
  shows "map_sum id fst (quiz_loop M n (pre @ b # post) params acc calls) =
         map_sum id fst (quiz_loop M n (pre @ post) params acc calls)"
proof -
  obtain A C where pre: "quiz_loop M n pre params acc calls = Inr (A, C)"
    using quiz_loop_total [of M n pre params acc calls] by blast
  have one: "map_sum id fst (quiz_loop M n (b # post) params A C) =
             map_sum id fst (quiz_loop M n post params A C)"
  proof (cases "n \<le> int (length A)")
    case True
    then show ?thesis by (simp add: quiz_loop_done)
  next
    case False
    then have lt: "int (length A) < n" by simp
    let ?k = "min (n - int (length A)) 5"
    let ?p = "params\<lparr>p_num_questions := ?k\<rparr>"
    have g: "py_iter (generate_quiz_from_batch M b ?p) = Inr []"
      by (simp add: quiz_fail_empty [OF assms])
    have "quiz_loop M n (b # post) params A C = quiz_loop M n post ?p A (C @ [(b, ?k)])"
      using lt by (simp add: Let_def g)
    also have "\<dots> = quiz_loop M n post params A (C @ [(b, ?k)])"
      by (rule quiz_loop_params)
    finally have e: "quiz_loop M n (b # post) params A C =
        quiz_loop M n post params A (C @ [(b, ?k)])" .
    have "map_sum id fst (quiz_loop M n (b # post) params A C) =
          map_sum id fst (quiz_loop M n post params A (C @ [(b, ?k)]))"
      by (rule arg_cong [OF e])
    also have "\<dots> = map_sum id fst (quiz_loop M n post params A C)"
      by (rule quiz_loop_questions_calls)
    finally show ?thesis .
  qed
  then show ?thesis
    by (simp only: quiz_loop_append pre sum.case prod.case)
qed

lemma notes_fail_empty:
  "notes_parse_fails M batch \<Longrightarrow> generate_notes_from_batch M batch = [(''sections'', JArr [])]"
  by (auto simp: notes_parse_fails_def generate_notes_from_batch_def split: sum.splits)

lemma has_len_iter: "has_len s \<Longrightarrow> \<exists>xs. py_iter s = Inr xs"
  by (cases s) simp_all

lemma notes_batch_sections:
  "map_of (generate_notes_from_batch M batch) ''sections'' = Some s \<Longrightarrow> \<exists>xs. py_iter s = Inr xs"
  by (auto simp: generate_notes_from_batch_def Let_def has_len_iter
      split: sum.splits option.splits json.splits if_splits)

lemma merge_sections_concat:
  "merge_sections (map (generate_notes_from_batch M) batches) sections =
     Inr (sections @ concat (map (notes_sections M) batches))"
proof (induction batches arbitrary: sections)
  case Nil
  then show ?case by simp
next
  case (Cons b bs)
  show ?case
  proof (cases "map_of (generate_notes_from_batch M b) ''sections''")
    case None
    then show ?thesis by (simp add: Cons.IH notes_sections_def)
  next
    case (Some s)
    from notes_batch_sections [OF Some] obtain xs where "py_iter s = Inr xs" by blast
    with Some show ?thesis by (simp add: Cons.IH notes_sections_def)
  qed
qed

lemma generate_notes_eq:
  "batched_chunks text_chunks similarities (n_similarity_threshold params) (n_batch_size params) =
     Inr batches \<Longrightarrow>
   generate_notes M text_chunks similarities params =
     Inr (JObj [(''title'', JStr ''Generated Notes''),
                (''sections'', JArr (concat (map (notes_sections M) batches)))], batches)"
  by (auto simp: generate_notes_def batched_chunks_def merge_notes_def merge_sections_concat
      split: sum.splits)

text \<open>
  The run of the loop over batches of which one does not parse: what the batches before
  it leave, then the call on the failed batch, which adds no question, then the batches
  after it.
\<close>

lemma quiz_loop_failed_batch:
  assumes f: "quiz_parse_fails M b" and pre: "quiz_loop M n pre params [] [] = Inr (A1, C1)"
  shows "quiz_loop M n (pre @ b # post) params [] [] =
           (if n \<le> int (length A1) then Inr (A1, C1)
            else quiz_loop M n post params A1 (C1 @ [(b, min (n - int (length A1)) 5)]))"
proof -
  have a: "quiz_loop M n (pre @ b # post) params [] [] = quiz_loop M n (b # post) params A1 C1"
    by (simp only: quiz_loop_append pre sum.case prod.case)
  show ?thesis
  proof (cases "n \<le> int (length A1)")
    case True
    then show ?thesis by (simp only: a quiz_loop_done if_True)
  next
    case False
    then have lt: "int (length A1) < n" by simp
    let ?k = "min (n - int (length A1)) 5"
    let ?p = "params\<lparr>p_num_questions := ?k\<rparr>"
    have g: "py_iter (generate_quiz_from_batch M b ?p) = Inr []"
      by (simp add: quiz_fail_empty [OF f])
    have "quiz_loop M n (b # post) params A1 C1 = quiz_loop M n post ?p A1 (C1 @ [(b, ?k)])"
      using lt by (simp add: Let_def g)
    also have "\<dots> = quiz_loop M n post params A1 (C1 @ [(b, ?k)])"
      by (rule quiz_loop_params)
    finally show ?thesis using False by (simp only: a if_False)
  qed
qed

lemma quiz_loop_first_call:
  assumes "quiz_loop M n (x # xs) params acc calls = Inr (A, C)" "int (length acc) < n"
  shows "length calls < length C \<and> C ! length calls = (x, min (n - int (length acc)) 5)"
proof -
  let ?k = "min (n - int (length acc)) 5"
  from quiz_loop_step [OF assms(2), of M x params xs calls] assms(1)
  obtain qs where "quiz_loop M n xs (params\<lparr>p_num_questions := ?k\<rparr>) (acc @ qs)
      (calls @ [(x, ?k)]) = Inr (A, C)"
    by auto
  from quiz_loop_shape [OF this] obtain new where "C = (calls @ [(x, ?k)]) @ new" by blast
  then show ?thesis by (simp add: nth_append)
qed

lemma map_Some_all2:
  "map f xs = map Some ys \<Longrightarrow> list_all2 (\<lambda>x y. f x = Some y \<or> Q x y) xs ys"
proof (induction xs arbitrary: ys)
  case Nil
  then show ?case by simp
next
  case (Cons x xs)
  then show ?case by (cases ys) auto
qed

lemma quiz_batch_gives:
  assumes "batch_questions M (p_difficulty params) batch = Some ys \<or> quiz_parse_fails M batch \<and> ys = []"
    "1 \<le> p_num_questions params"
  shows "generate_quiz_from_batch M batch params = JArr (take (nat (p_num_questions params)) ys)"
  using assms quiz_batch_yield [of M params batch ys] quiz_fail_empty [of M batch params] by auto

lemma quiz_loop_gives:
  assumes "p_difficulty params = d" "0 \<le> n" "n \<le> 5"
    "list_all2 (\<lambda>b ys. batch_questions M d b = Some ys \<or> quiz_parse_fails M b \<and> ys = []) batches yss"
    "int (length acc) \<le> n"
  shows "\<exists>A C. quiz_loop M n batches params acc calls = Inr (A, C) \<and>
               take (nat n) A = take (nat n) (acc @ concat yss)"
  using assms
proof (induction batches arbitrary: params acc calls yss)
  case Nil
  then show ?case by simp
next
  case (Cons b bs)
  from Cons.prems(4) obtain r rs where yss: "yss = r # rs"
    and r: "batch_questions M d b = Some r \<or> quiz_parse_fails M b \<and> r = []"
    and rs: "list_all2 (\<lambda>b ys. batch_questions M d b = Some ys \<or> quiz_parse_fails M b \<and> ys = []) bs rs"
    by (cases yss) auto
  show ?case
  proof (cases "n \<le> int (length acc)")
    case True
    with Cons.prems(5) have "nat n = length acc" by simp
    with True show ?thesis by (simp add: quiz_loop_done)
  next
    case False
    then have lt: "int (length acc) < n" by simp
    let ?k = "n - int (length acc)"
    have k: "min ?k 5 = ?k" using Cons.prems(3) by simp
    let ?p = "params\<lparr>p_num_questions := ?k\<rparr>"
    have g: "generate_quiz_from_batch M b ?p = JArr (take (nat ?k) r)"
      using quiz_batch_gives [of M ?p b r] Cons.prems(1) r lt by simp
    have st: "quiz_loop M n (b # bs) params acc calls =
              quiz_loop M n bs ?p (acc @ take (nat ?k) r) (calls @ [(b, ?k)])"
      using lt by (simp add: Let_def k g)
    have len: "int (length (acc @ take (nat ?k) r)) \<le> n" using lt by simp
    have pd: "p_difficulty ?p = d" using Cons.prems(1) by simp
    from Cons.IH [OF pd Cons.prems(2,3) rs len, of "calls @ [(b, ?k)]"]
    obtain A C where run: "quiz_loop M n bs ?p (acc @ take (nat ?k) r) (calls @ [(b, ?k)]) = Inr (A, C)"
      and tk: "take (nat n) A = take (nat n) ((acc @ take (nat ?k) r) @ concat rs)" by blast
    have nk: "nat n - length acc = nat ?k" using lt by simp
    have "take (nat n) ((acc @ take (nat ?k) r) @ concat rs) =
          acc @ take (nat ?k) (take (nat ?k) r @ concat rs)"
      using lt by (simp add: nk)
    also have "\<dots> = acc @ take (nat ?k) (r @ concat rs)" by (simp only: take_take_append)
    also have "\<dots> = take (nat n) (acc @ concat yss)" using lt by (simp add: yss nk)
    finally have "take (nat n) A = take (nat n) (acc @ concat yss)" using tk by simp
    with run st show ?thesis by simp
  qed
qed

text \<open>
  Claim C8. A batch whose response does not parse gives the empty result: the empty
  question list in the quiz generator, \<open>{"sections": []}\<close> in the notes generator. The
  generation goes on and returns.

  In the quiz generator, with \<open>A1\<close> the questions and \<open>C1\<close> the calls that the batches
  before the failed one leave: when \<open>A1\<close> already has \<open>num_questions\<close> questions the failed
  batch is not reached; otherwise the model is called on it for the minimum of 5 and the
  number still needed, no question is added, and the loop runs on over the batches after
  it from the same questions, the first of them being asked for that same number. When
  the other batches answer with lists of questions and \<open>num_questions\<close> is at most 5, the
  quiz is the first \<open>num_questions\<close> of the questions of the batches before, followed by
  those of the batches after the failed one.

  In the notes generator the model is called on every batch, and the merged notes hold
  the sections of the batches before the failed one followed by those of the batches after
  it.
\<close>

theorem parse_failure_gives_empty_batch:
  "(quiz_parse_fails M b \<longrightarrow>
      generate_quiz_from_batch M b params = JArr [] \<and>
      (batched_chunks text_chunks similarities (p_similarity_threshold params) (p_batch_size params) =
         Inr (pre @ b # post) \<longrightarrow>
       (\<exists>questions calls A1 C1.
          generate_quiz M text_chunks similarities params = Inr (questions, calls) \<and>
          quiz_loop M (p_num_questions params) pre params [] [] = Inr (A1, C1) \<and>
          (p_num_questions params \<le> int (length A1) \<longrightarrow>
             questions = slice_to A1 (p_num_questions params) \<and> calls = C1) \<and>
          (int (length A1) < p_num_questions params \<longrightarrow>
             (\<exists>A. quiz_loop M (p_num_questions params) post params A1
                     (C1 @ [(b, min (p_num_questions params - int (length A1)) 5)]) = Inr (A, calls) \<and>
                  questions = slice_to A (p_num_questions params)) \<and>
             length C1 = length pre \<and>
             length pre < length calls \<and>
             calls ! length pre = (b, min (p_num_questions params - int (length A1)) 5) \<and>
             (post \<noteq> [] \<longrightarrow>
                Suc (length pre) < length calls \<and>
                calls ! Suc (length pre) =
                  (hd post, min (p_num_questions params - int (length A1)) 5))) \<and>
          (0 \<le> p_num_questions params \<and> p_num_questions params \<le> 5 \<and>
           map (batch_questions M (p_difficulty params)) pre = map Some ys_pre \<and>
           map (batch_questions M (p_difficulty params)) post = map Some ys_post \<longrightarrow>
             questions = take (nat (p_num_questions params)) (concat ys_pre @ concat ys_post))))) \<and>
   (notes_parse_fails M b \<longrightarrow>
      generate_notes_from_batch M b = [(''sections'', JArr [])] \<and>
      (batched_chunks text_chunks similarities (n_similarity_threshold nparams) (n_batch_size nparams) =
         Inr (pre @ b # post) \<longrightarrow>
       generate_notes M text_chunks similarities nparams =
         Inr (JObj [(''title'', JStr ''Generated Notes''),
                    (''sections'', JArr (concat (map (notes_sections M) pre) @
                                         concat (map (notes_sections M) post)))],
              pre @ b # post)))"
proof (intro conjI impI)
  assume f: "quiz_parse_fails M b"
  then show "generate_quiz_from_batch M b params = JArr []" by (rule quiz_fail_empty)
  assume bc: "batched_chunks text_chunks similarities (p_similarity_threshold params)
      (p_batch_size params) = Inr (pre @ b # post)"
  let ?n = "p_num_questions params"
  obtain A1 C1 where pre: "quiz_loop M ?n pre params [] [] = Inr (A1, C1)"
    using quiz_loop_total [of M ?n pre params "[]" "[]"] by blast
  let ?k = "min (?n - int (length A1)) 5"
  obtain A C where full: "quiz_loop M ?n (pre @ b # post) params [] [] = Inr (A, C)"
    using quiz_loop_total [of M ?n "pre @ b # post" params "[]" "[]"] by blast
  have res: "generate_quiz M text_chunks similarities params = Inr (slice_to A ?n, C)"
    by (simp add: generate_quiz_batched bc full)
  note dec = quiz_loop_failed_batch [OF f pre, of post]
  have 1: "?n \<le> int (length A1) \<longrightarrow> slice_to A ?n = slice_to A1 ?n \<and> C = C1"
  proof
    assume "?n \<le> int (length A1)"
    with dec have "quiz_loop M ?n (pre @ b # post) params [] [] = Inr (A1, C1)" by simp
    with full show "slice_to A ?n = slice_to A1 ?n \<and> C = C1" by simp
  qed
  have 2: "int (length A1) < ?n \<longrightarrow>
             (\<exists>A'. quiz_loop M ?n post params A1 (C1 @ [(b, ?k)]) = Inr (A', C) \<and>
                  slice_to A ?n = slice_to A' ?n) \<and>
             length C1 = length pre \<and>
             length pre < length C \<and>
             C ! length pre = (b, ?k) \<and>
             (post \<noteq> [] \<longrightarrow> Suc (length pre) < length C \<and> C ! Suc (length pre) = (hd post, ?k))"
  proof
    assume lt: "int (length A1) < ?n"
    with dec have "quiz_loop M ?n (pre @ b # post) params [] [] =
        quiz_loop M ?n post params A1 (C1 @ [(b, ?k)])" by simp
    with full have rest: "quiz_loop M ?n post params A1 (C1 @ [(b, ?k)]) = Inr (A, C)"
      by simp
    from quiz_loop_calls_length [OF pre] lt have l1: "length C1 = length pre" by simp
    from quiz_loop_shape [OF rest] obtain new where new: "C = (C1 @ [(b, ?k)]) @ new" by blast
    then have l2: "length pre < length C" and c2: "C ! length pre = (b, ?k)"
      using l1 by (simp_all add: nth_append)
    have 3: "post \<noteq> [] \<longrightarrow> Suc (length pre) < length C \<and> C ! Suc (length pre) = (hd post, ?k)"
    proof
      assume "post \<noteq> []"
      then obtain x xs where post: "post = x # xs" by (cases post) auto
      from quiz_loop_first_call [OF rest [unfolded post] lt] l1
      show "Suc (length pre) < length C \<and> C ! Suc (length pre) = (hd post, ?k)"
        by (simp add: post)
    qed
    from rest l1 l2 c2 3
    show "(\<exists>A'. quiz_loop M ?n post params A1 (C1 @ [(b, ?k)]) = Inr (A', C) \<and>
                  slice_to A ?n = slice_to A' ?n) \<and>
             length C1 = length pre \<and>
             length pre < length C \<and>
             C ! length pre = (b, ?k) \<and>
             (post \<noteq> [] \<longrightarrow> Suc (length pre) < length C \<and> C ! Suc (length pre) = (hd post, ?k))"
      by blast
  qed
  have 4: "0 \<le> ?n \<and> ?n \<le> 5 \<and>
           map (batch_questions M (p_difficulty params)) pre = map Some ys_pre \<and>
           map (batch_questions M (p_difficulty params)) post = map Some ys_post \<longrightarrow>
             slice_to A ?n = take (nat ?n) (concat ys_pre @ concat ys_post)"
  proof
    assume a: "0 \<le> ?n \<and> ?n \<le> 5 \<and>
           map (batch_questions M (p_difficulty params)) pre = map Some ys_pre \<and>
           map (batch_questions M (p_difficulty params)) post = map Some ys_post"
    let ?G = "\<lambda>b ys. batch_questions M (p_difficulty params) b = Some ys \<or>
                quiz_parse_fails M b \<and> ys = []"
    have "list_all2 ?G pre ys_pre" using a by (intro map_Some_all2) simp
    moreover have "list_all2 ?G post ys_post" using a by (intro map_Some_all2) simp
    moreover have "?G b []" using f by simp
    ultimately have all: "list_all2 ?G (pre @ b # post) (ys_pre @ [] # ys_post)"
      by (intro list_all2_appendI list_all2_Cons [THEN iffD2] conjI)
    from quiz_loop_gives [of params "p_difficulty params" ?n M "pre @ b # post"
        "ys_pre @ [] # ys_post" "[]" "[]", OF refl _ _ all] a full
    have "take (nat ?n) A = take (nat ?n) (concat ys_pre @ concat ys_post)" by simp
    with a show "slice_to A ?n = take (nat ?n) (concat ys_pre @ concat ys_post)"
      by (simp add: slice_to_def)
  qed
  from res pre 1 2 4
  show "\<exists>questions calls A1 C1.
          generate_quiz M text_chunks similarities params = Inr (questions, calls) \<and>
          quiz_loop M ?n pre params [] [] = Inr (A1, C1) \<and>
          (?n \<le> int (length A1) \<longrightarrow> questions = slice_to A1 ?n \<and> calls = C1) \<and>
          (int (length A1) < ?n \<longrightarrow>
             (\<exists>A. quiz_loop M ?n post params A1 (C1 @ [(b, min (?n - int (length A1)) 5)]) =
                     Inr (A, calls) \<and>
                  questions = slice_to A ?n) \<and>
             length C1 = length pre \<and>
             length pre < length calls \<and>
             calls ! length pre = (b, min (?n - int (length A1)) 5) \<and>
             (post \<noteq> [] \<longrightarrow>
                Suc (length pre) < length calls \<and>
                calls ! Suc (length pre) = (hd post, min (?n - int (length A1)) 5))) \<and>
          (0 \<le> ?n \<and> ?n \<le> 5 \<and>
           map (batch_questions M (p_difficulty params)) pre = map Some ys_pre \<and>
           map (batch_questions M (p_difficulty params)) post = map Some ys_post \<longrightarrow>
             questions = take (nat ?n) (concat ys_pre @ concat ys_post))"
    by (intro exI [of _ "slice_to A ?n"] exI [of _ C] exI [of _ A1] exI [of _ C1]) blast
next
  assume f: "notes_parse_fails M b"
  then show e: "generate_notes_from_batch M b = [(''sections'', JArr [])]"
    by (rule notes_fail_empty)
  assume bc: "batched_chunks text_chunks similarities (n_similarity_threshold nparams)
      (n_batch_size nparams) = Inr (pre @ b # post)"
  have "notes_sections M b = []" by (simp add: notes_sections_def e)
  then show "generate_notes M text_chunks similarities nparams =
         Inr (JObj [(''title'', JStr ''Generated Notes''),
                    (''sections'', JArr (concat (map (notes_sections M) pre) @
                                         concat (map (notes_sections M) post)))],
              pre @ b # post)"
    by (simp add: generate_notes_eq [OF bc])
qed

lemma example_batches_failed:
  "batched_chunks [''c1'', ''zz'', ''c2''] (Inr [[1, 0, 0], [0, 1, 0], [0, 0, 1]])
      (p_similarity_threshold example_params) (p_batch_size example_params) =
   Inr ([''c1''] @ ''zz'' # [''c2''])"
  by (simp add: batched_chunks_def example_params_def deduplicate_chunks_def dedup_step_def
      mark_seen_def upt_0_3 upt_rec [of 1 3] upt_rec [of 2 3] upt_rec [of 3 3] batch_chunks_def
      batch_loop.simps)

lemma example_notes_batches:
  "batched_chunks [''n1'', ''zz''] (Inr [[1, 0], [0, 1]])
      (n_similarity_threshold example_notes_params) (n_batch_size example_notes_params) =
   Inr ([''n1''] @ ''zz'' # [])"
  by (simp add: batched_chunks_def example_notes_params_def deduplicate_two batch_chunks_def
      batch_loop.simps)

lemma example_zz_fails:
  "quiz_parse_fails example_llm ''zz''" "notes_parse_fails example_llm ''zz''"
  by (simp_all add: quiz_parse_fails_def notes_parse_fails_def example_llm_def strip_def
      strip_chars_def is_space_def clean_json_response_def remove_fence.simps search_braces_def)

lemma example_n1_sections: "notes_sections example_llm ''n1'' = [JStr ''s1'']"
  by (simp add: notes_sections_def generate_notes_from_batch_def example_llm_def strip_def
      is_space_def clean_json_response_def remove_fence.simps search_braces_def)

lemma example_loop_before:
  "quiz_loop example_llm 3 [''c1''] example_params [] [] =
     Inr ([JStr ''q1'', JStr ''q2''], [(''c1'', 3)])"
  by (simp add: generate_quiz_from_batch_def example_llm_def example_params_def strip_def
      strip_chars_def is_space_def slice_to_def)

lemma example_loop_after:
  "quiz_loop example_llm 3 [''c2''] example_params [JStr ''q1'', JStr ''q2'']
       [(''c1'', 3), (''zz'', 1)] =
     Inr ([JStr ''q1'', JStr ''q2'', JStr ''q3''], [(''c1'', 3), (''zz'', 1), (''c2'', 1)])"
  by (simp add: generate_quiz_from_batch_def example_llm_def example_params_def strip_def
      strip_chars_def is_space_def slice_to_def)

theorem parse_failure_gives_empty_batch_witness:
  "quiz_parse_fails example_llm ''zz'' \<and>
   generate_quiz_from_batch example_llm ''zz'' example_params = JArr [] \<and>
   generate_quiz example_llm [''c1'', ''zz'', ''c2''] (Inr [[1, 0, 0], [0, 1, 0], [0, 0, 1]])
       example_params =
     Inr ([JStr ''q1'', JStr ''q2'', JStr ''q3''], [(''c1'', 3), (''zz'', 1), (''c2'', 1)]) \<and>
   notes_parse_fails example_llm ''zz'' \<and>
   generate_notes_from_batch example_llm ''zz'' = [(''sections'', JArr [])] \<and>
   generate_notes example_llm [''n1'', ''zz''] (Inr [[1, 0], [0, 1]]) example_notes_params =
     Inr (JObj [(''title'', JStr ''Generated Notes''), (''sections'', JArr [JStr ''s1''])],
          [''n1'', ''zz''])"
proof -
  have n: "p_num_questions example_params = 3" by (simp add: example_params_def)
  note q = parse_failure_gives_empty_batch [where M = example_llm and b = "''zz''"
      and params = example_params and text_chunks = "[''c1'', ''zz'', ''c2'']"
      and similarities = "Inr [[1, 0, 0], [0, 1, 0], [0, 0, 1]]"
      and pre = "[''c1'']" and post = "[''c2'']", THEN conjunct1, rule_format,
      OF example_zz_fails(1)]
  from q have 1: "generate_quiz_from_batch example_llm ''zz'' example_params = JArr []"
    by blast
  from q example_batches_failed
  obtain questions calls A1 C1 where
    g: "generate_quiz example_llm [''c1'', ''zz'', ''c2''] (Inr [[1, 0, 0], [0, 1, 0], [0, 0, 1]])
          example_params = Inr (questions, calls)"
    and p: "quiz_loop example_llm (p_num_questions example_params) [''c1''] example_params [] [] =
          Inr (A1, C1)"
    and r: "int (length A1) < p_num_questions example_params \<longrightarrow>
       (\<exists>A. quiz_loop example_llm (p_num_questions example_params) [''c2''] example_params A1
               (C1 @ [(''zz'', min (p_num_questions example_params - int (length A1)) 5)]) =
               Inr (A, calls) \<and>
            questions = slice_to A (p_num_questions example_params))"
    by blast
  from p [unfolded n example_loop_before]
  have a: "A1 = [JStr ''q1'', JStr ''q2'']" "C1 = [(''c1'', 3)]"
    by simp_all
  have k: "C1 @ [(''zz'', min (p_num_questions example_params - int (length A1)) 5)] =
      [(''c1'', 3), (''zz'', 1)]"
    by (simp add: n a)
  have "int (length A1) < p_num_questions example_params" by (simp add: n a)
  with r obtain A where
    l: "quiz_loop example_llm (p_num_questions example_params) [''c2''] example_params A1
         (C1 @ [(''zz'', min (p_num_questions example_params - int (length A1)) 5)]) =
         Inr (A, calls)"
    and qs: "questions = slice_to A (p_num_questions example_params)"
    by blast
  from l [unfolded k, unfolded n a example_loop_after]
  have "A = [JStr ''q1'', JStr ''q2'', JStr ''q3'']"
    "calls = [(''c1'', 3), (''zz'', 1), (''c2'', 1)]"
    by simp_all
  with g qs n have 2: "generate_quiz example_llm [''c1'', ''zz'', ''c2'']
      (Inr [[1, 0, 0], [0, 1, 0], [0, 0, 1]]) example_params =
     Inr ([JStr ''q1'', JStr ''q2'', JStr ''q3''], [(''c1'', 3), (''zz'', 1), (''c2'', 1)])"
    by (simp add: slice_to_def)
  from parse_failure_gives_empty_batch [where M = example_llm and b = "''zz''"
      and nparams = example_notes_params
      and text_chunks = "[''n1'', ''zz'']" and similarities = "Inr [[1, 0], [0, 1]]"
      and pre = "[''n1'']" and post = "[]"]
    example_notes_batches
  have 3: "generate_notes_from_batch example_llm ''zz'' = [(''sections'', JArr [])] \<and>
   generate_notes example_llm [''n1'', ''zz''] (Inr [[1, 0], [0, 1]]) example_notes_params =
     Inr (JObj [(''title'', JStr ''Generated Notes''), (''sections'', JArr [JStr ''s1''])],
          [''n1'', ''zz''])"
    by (simp add: example_zz_fails example_n1_sections)
  from 1 2 3 example_zz_fails show ?thesis by blast
qed

section \<open>HTTP handlers\<close>

lemma get_fresh:
  "fs (get_cache_path dir k) = Some (JObj [(''timestamp'', JNum ts), (''data'', payload)]) \<Longrightarrow>
   t - ts \<le> CACHE_TIMEOUT \<Longrightarrow>
   get_from_cache dir fs t k = Inr (payload, fs)"
  by (simp add: get_from_cache_def)

lemma youtube_fresh_entry:
  assumes "map_of data ''url'' = Some (JStr url)" "extract_video_id E url = Some video_id"
    "video_id \<noteq> []"
    "fs (get_cache_path dir (''yt_'' @ user_id @ ''_'' @ video_id)) =
       Some (JObj [(''timestamp'', JNum ts), (''data'', payload)])"
    "t_get - ts \<le> CACHE_TIMEOUT"
  shows "process_youtube E dir open_w user_id data fs t_get t_save =
     (if truthy payload
      then (Response 200 [(''message'', JStr ''Transcript retrieved from cache''),
                          (''cache_id'', JStr (''yt_'' @ user_id @ ''_'' @ video_id)),
                          (''user_id'', JStr user_id)], fs, [])
      else (case get_transcript E video_id of
              Inl e \<Rightarrow> (ServerError e, fs, [video_id])
            | Inr transcript \<Rightarrow>
                (case save_to_cache dir open_w fs t_save (JStr transcript) (''yt_'' @ user_id @ ''_'' @ video_id) of
               Inl e \<Rightarrow> (ServerError e, fs, [video_id])
             | Inr fs' \<Rightarrow>
                 (Response 200 [(''message'', JStr ''YouTube transcript processed successfully''),
                                (''cache_id'', JStr (''yt_'' @ user_id @ ''_'' @ video_id)),
                                (''user_id'', JStr user_id)], fs', [video_id]))))"
proof -
  have d: "data \<noteq> []" using assms(1) by auto
  have g: "get_from_cache dir fs t_get (''yt_'' @ user_id @ ''_'' @ video_id) = Inr (payload, fs)"
    using assms(4,5) by (rule get_fresh)
  show ?thesis
    using d by (simp add: process_youtube_def assms(1,2,3) g Let_def del: append.simps)
qed

lemma quiz_fresh_entry:
  assumes "map_of data ''cache_id'' = Some (JStr cid)"
    "quiz_request_params E data = Inr (n, d, threshold)"
    "fs (get_cache_path dir (cid @ ''_'' @ str_int n @ ''_'' @ d)) =
       Some (JObj [(''timestamp'', JNum ts), (''data'', payload)])"
    "t_quiz - ts \<le> CACHE_TIMEOUT"
  shows "api_generate_quiz E dir open_w user_id data fs w t_quiz t_transcript t_save =
     (if truthy payload
      then (Response 200 [(''message'', JStr ''Quiz retrieved from cache''),
                          (''quiz'', payload), (''user_id'', JStr user_id)], fs, w, [])
      else if startswith cid (''yt_'' @ user_id @ ''_'') then
        (case get_from_cache dir fs t_transcript cid of
           Inl e \<Rightarrow> (ServerError e, fs, w, [])
         | Inr (transcript, fs') \<Rightarrow>
             if \<not> truthy transcript
             then (Response 404 [(''error'', JStr ''Transcript not found'')], fs', w, [])
             else
               (case transcript of
                  JStr text \<Rightarrow>
                    (case run_generate_quiz E [text] n d threshold of
                       Inl e \<Rightarrow> (ServerError e, fs', w, [])
                     | Inr (quiz, calls) \<Rightarrow>
                         (case save_to_cache dir open_w fs' t_save (JArr quiz) (cid @ ''_'' @ str_int n @ ''_'' @ d) of
               Inl e \<Rightarrow> (ServerError e, fs', w, calls)
             | Inr fs2 \<Rightarrow>
                 (Response 200 [(''message'', JStr ''Quiz generated successfully''),
                                (''quiz'', JArr quiz), (''user_id'', JStr user_id)], fs2, w, calls)))
                | _ \<Rightarrow> (ServerError TypeError, fs', w, [])))
      else if startswith cid (''doc_'' @ user_id @ ''_'') then
        (case embeddings_init E of
           Some e \<Rightarrow> (ServerError e, fs, w, [])
         | None \<Rightarrow>
             (case run_generate_quiz E
                     (map fst (case vectordb w of None \<Rightarrow> [] | Some chunks \<Rightarrow> chunks)) n d threshold of
                Inl e \<Rightarrow> (ServerError e, fs,
                          w\<lparr>vectordb := Some (case vectordb w of None \<Rightarrow> [] | Some chunks \<Rightarrow> chunks)\<rparr>, [])
              | Inr (quiz, calls) \<Rightarrow>
                  (case save_to_cache dir open_w fs t_save (JArr quiz) (cid @ ''_'' @ str_int n @ ''_'' @ d) of
               Inl e \<Rightarrow> (ServerError e, fs, w\<lparr>vectordb := Some (case vectordb w of None \<Rightarrow> [] | Some chunks \<Rightarrow> chunks)\<rparr>, calls)
             | Inr fs2 \<Rightarrow>
                 (Response 200 [(''message'', JStr ''Quiz generated successfully''),
                                (''quiz'', JArr quiz), (''user_id'', JStr user_id)], fs2, w\<lparr>vectordb := Some (case vectordb w of None \<Rightarrow> [] | Some chunks \<Rightarrow> chunks)\<rparr>, calls))))
      else (Response 400 [(''error'', JStr ''Invalid cache ID format'')], fs, w, []))"
proof -
  have d: "data \<noteq> []" using assms(1) by auto
  have c: "dict_get data ''cache_id'' JNull = JStr cid" by (simp add: dict_get_def assms(1))
  have g: "get_from_cache dir fs t_quiz (cid @ ''_'' @ str_int n @ ''_'' @ d) = Inr (payload, fs)"
    using assms(3,4) by (rule get_fresh)
  show ?thesis
    using d
    by (simp add: api_generate_quiz_def assms(1,2) c format_value_def g Let_def del: append.simps
        split: sum.split prod.split json.split option.split)
qed

lemma single_chunk_batches:
  "batched_chunks [text] sims t DEFAULT_BATCH_SIZE = Inr [text]"
  by (simp add: batched_chunks_def deduplicate_chunks_def batch_chunks_def DEFAULT_BATCH_SIZE_def
      batch_loop.simps)

lemma run_generate_quiz_single:
  assumes "run_generate_quiz E [text] n d threshold = Inr (quiz, calls)" "1 \<le> n"
  shows "calls = [(text, min n 5)]"
proof -
  let ?p = "\<lparr>p_num_questions = n, p_difficulty = d, p_similarity_threshold = threshold,
             p_batch_size = DEFAULT_BATCH_SIZE\<rparr>"
  have lt: "int (length ([] :: json list)) < n" using assms(2) by simp
  from quiz_loop_step [OF lt, of "model E" "text" ?p "[]" "[]"]
  obtain qs where st: "quiz_loop (model E) n [text] ?p [] [] = Inr ([] @ qs, [] @ [(text, min n 5)])"
    by auto
  from assms(1) show ?thesis
    by (simp add: run_generate_quiz_def generate_quiz_batched single_chunk_batches st
        del: quiz_loop.simps)
qed

text \<open>
  Claim C10. The handlers test the cached payload, not the presence of the entry. With an
  unexpired entry for the video whose payload is false in Python (the empty transcript),
  \<open>process_youtube\<close> fetches the transcript again and stores it, where a non-empty payload
  is answered from the cache without a fetch. With an unexpired entry for the quiz whose
  payload is false (the empty list), the handler \<open>generate_quiz\<close> generates the quiz again,
  from the cached transcript or from the stored documents, and stores it; for a transcript
  and at least one question asked for, the model is called on the transcript. Where the
  write of the new entry raises, the answer is the error, after the fetch or the
  generation.
\<close>

theorem empty_cached_payload_is_a_miss:
  "(map_of data ''url'' = Some (JStr url) \<and> extract_video_id E url = Some video_id \<and> video_id \<noteq> [] \<and>
    fs (get_cache_path dir (''yt_'' @ user_id @ ''_'' @ video_id)) =
      Some (JObj [(''timestamp'', JNum ts), (''data'', payload)]) \<and>
    t_get - ts \<le> CACHE_TIMEOUT \<longrightarrow>
      (\<not> truthy payload \<and> get_transcript E video_id = Inr transcript \<longrightarrow>
         process_youtube E dir open_w user_id data fs t_get t_save =
           (case save_to_cache dir open_w fs t_save (JStr transcript) (''yt_'' @ user_id @ ''_'' @ video_id) of
               Inl e \<Rightarrow> (ServerError e, fs, [video_id])
             | Inr fs' \<Rightarrow>
                 (Response 200 [(''message'', JStr ''YouTube transcript processed successfully''),
                                (''cache_id'', JStr (''yt_'' @ user_id @ ''_'' @ video_id)),
                                (''user_id'', JStr user_id)], fs', [video_id]))) \<and>
      (truthy payload \<longrightarrow>
         process_youtube E dir open_w user_id data fs t_get t_save =
           (Response 200 [(''message'', JStr ''Transcript retrieved from cache''),
                          (''cache_id'', JStr (''yt_'' @ user_id @ ''_'' @ video_id)),
                          (''user_id'', JStr user_id)], fs, []))) \<and>
   (map_of qdata ''cache_id'' = Some (JStr cid) \<and>
    quiz_request_params E qdata = Inr (n, d, threshold) \<and>
    fs (get_cache_path dir (cid @ ''_'' @ str_int n @ ''_'' @ d)) =
      Some (JObj [(''timestamp'', JNum ts), (''data'', payload)]) \<and>
    t_quiz - ts \<le> CACHE_TIMEOUT \<and> \<not> truthy payload \<longrightarrow>
      (startswith cid (''yt_'' @ user_id @ ''_'') \<and>
       fs (get_cache_path dir cid) = Some (JObj [(''timestamp'', JNum ts'), (''data'', JStr text)]) \<and>
       text \<noteq> [] \<and> t_transcript - ts' \<le> CACHE_TIMEOUT \<and>
       run_generate_quiz E [text] n d threshold = Inr (quiz, calls) \<longrightarrow>
         api_generate_quiz E dir open_w user_id qdata fs w t_quiz t_transcript t_save =
           (case save_to_cache dir open_w fs t_save (JArr quiz) (cid @ ''_'' @ str_int n @ ''_'' @ d) of
               Inl e \<Rightarrow> (ServerError e, fs, w, calls)
             | Inr fs2 \<Rightarrow>
                 (Response 200 [(''message'', JStr ''Quiz generated successfully''),
                                (''quiz'', JArr quiz), (''user_id'', JStr user_id)], fs2, w, calls)) \<and>
         (1 \<le> n \<longrightarrow> calls = [(text, min n 5)])) \<and>
      (\<not> startswith cid (''yt_'' @ user_id @ ''_'') \<and> startswith cid (''doc_'' @ user_id @ ''_'') \<and>
       embeddings_init E = None \<and> vectordb w = Some stored \<and>
       run_generate_quiz E (map fst stored) n d threshold = Inr (quiz, calls) \<longrightarrow>
         api_generate_quiz E dir open_w user_id qdata fs w t_quiz t_transcript t_save =
           (case save_to_cache dir open_w fs t_save (JArr quiz) (cid @ ''_'' @ str_int n @ ''_'' @ d) of
               Inl e \<Rightarrow> (ServerError e, fs, w, calls)
             | Inr fs2 \<Rightarrow>
                 (Response 200 [(''message'', JStr ''Quiz generated successfully''),
                                (''quiz'', JArr quiz), (''user_id'', JStr user_id)], fs2, w, calls)))) \<and>
   \<not> truthy (JStr '''') \<and> \<not> truthy (JArr [])"
proof (intro conjI impI)
  assume a: "map_of data ''url'' = Some (JStr url) \<and> extract_video_id E url = Some video_id \<and>
    video_id \<noteq> [] \<and>
    fs (get_cache_path dir (''yt_'' @ user_id @ ''_'' @ video_id)) =
      Some (JObj [(''timestamp'', JNum ts), (''data'', payload)]) \<and>
    t_get - ts \<le> CACHE_TIMEOUT"
  have y: "process_youtube E dir open_w user_id data fs t_get t_save =
     (if truthy payload
      then (Response 200 [(''message'', JStr ''Transcript retrieved from cache''),
                          (''cache_id'', JStr (''yt_'' @ user_id @ ''_'' @ video_id)),
                          (''user_id'', JStr user_id)], fs, [])
      else (case get_transcript E video_id of
              Inl e \<Rightarrow> (ServerError e, fs, [video_id])
            | Inr transcript \<Rightarrow>
                (case save_to_cache dir open_w fs t_save (JStr transcript) (''yt_'' @ user_id @ ''_'' @ video_id) of
               Inl e \<Rightarrow> (ServerError e, fs, [video_id])
             | Inr fs' \<Rightarrow>
                 (Response 200 [(''message'', JStr ''YouTube transcript processed successfully''),
                                (''cache_id'', JStr (''yt_'' @ user_id @ ''_'' @ video_id)),
                                (''user_id'', JStr user_id)], fs', [video_id]))))"
    by (rule youtube_fresh_entry [where url = url and ts = ts]) (use a in simp_all)
  {
    assume "\<not> truthy payload \<and> get_transcript E video_id = Inr transcript"
    then show "process_youtube E dir open_w user_id data fs t_get t_save =
           (case save_to_cache dir open_w fs t_save (JStr transcript) (''yt_'' @ user_id @ ''_'' @ video_id) of
               Inl e \<Rightarrow> (ServerError e, fs, [video_id])
             | Inr fs' \<Rightarrow>
                 (Response 200 [(''message'', JStr ''YouTube transcript processed successfully''),
                                (''cache_id'', JStr (''yt_'' @ user_id @ ''_'' @ video_id)),
                                (''user_id'', JStr user_id)], fs', [video_id]))"
      by (simp add: y del: append.simps)
  }
  {
    assume "truthy payload"
    then show "process_youtube E dir open_w user_id data fs t_get t_save =
           (Response 200 [(''message'', JStr ''Transcript retrieved from cache''),
                          (''cache_id'', JStr (''yt_'' @ user_id @ ''_'' @ video_id)),
                          (''user_id'', JStr user_id)], fs, [])"
      by (simp add: y del: append.simps)
  }
next
  assume a: "map_of qdata ''cache_id'' = Some (JStr cid) \<and>
    quiz_request_params E qdata = Inr (n, d, threshold) \<and>
    fs (get_cache_path dir (cid @ ''_'' @ str_int n @ ''_'' @ d)) =
      Some (JObj [(''timestamp'', JNum ts), (''data'', payload)]) \<and>
    t_quiz - ts \<le> CACHE_TIMEOUT \<and> \<not> truthy payload"
  note q = quiz_fresh_entry [where data = qdata and cid = cid and E = E and n = n and d = d
      and threshold = threshold and fs = fs and dir = dir and ts = ts and payload = payload
      and t_quiz = t_quiz and open_w = open_w and user_id = user_id and w = w
      and t_transcript = t_transcript and t_save = t_save]
  {
    assume b: "startswith cid (''yt_'' @ user_id @ ''_'') \<and>
       fs (get_cache_path dir cid) = Some (JObj [(''timestamp'', JNum ts'), (''data'', JStr text)]) \<and>
       text \<noteq> [] \<and> t_transcript - ts' \<le> CACHE_TIMEOUT \<and>
       run_generate_quiz E [text] n d threshold = Inr (quiz, calls)"
    have g: "get_from_cache dir fs t_transcript cid = Inr (JStr text, fs)"
      by (rule get_fresh [where ts = ts']) (use b in simp_all)
    from a b show "api_generate_quiz E dir open_w user_id qdata fs w t_quiz t_transcript t_save =
           (case save_to_cache dir open_w fs t_save (JArr quiz) (cid @ ''_'' @ str_int n @ ''_'' @ d) of
               Inl e \<Rightarrow> (ServerError e, fs, w, calls)
             | Inr fs2 \<Rightarrow>
                 (Response 200 [(''message'', JStr ''Quiz generated successfully''),
                                (''quiz'', JArr quiz), (''user_id'', JStr user_id)], fs2, w, calls))"
      by (simp add: q g del: append.simps)
    {
      assume "1 \<le> n"
      with b show "calls = [(text, min n 5)]"
        by (intro run_generate_quiz_single [where quiz = quiz and E = E and d = d and threshold = threshold])
          simp_all
    }
  }
  {
    assume b: "\<not> startswith cid (''yt_'' @ user_id @ ''_'') \<and> startswith cid (''doc_'' @ user_id @ ''_'') \<and>
       embeddings_init E = None \<and> vectordb w = Some stored \<and>
       run_generate_quiz E (map fst stored) n d threshold = Inr (quiz, calls)"
    then have w: "w\<lparr>vectordb := Some stored\<rparr> = w" by simp
    from a b show "api_generate_quiz E dir open_w user_id qdata fs w t_quiz t_transcript t_save =
           (case save_to_cache dir open_w fs t_save (JArr quiz) (cid @ ''_'' @ str_int n @ ''_'' @ d) of
               Inl e \<Rightarrow> (ServerError e, fs, w, calls)
             | Inr fs2 \<Rightarrow>
                 (Response 200 [(''message'', JStr ''Quiz generated successfully''),
                                (''quiz'', JArr quiz), (''user_id'', JStr user_id)], fs2, w, calls))"
      by (simp add: q w del: append.simps split: sum.split)
  }
next
  show "\<not> truthy (JStr '''')" by simp
  show "\<not> truthy (JArr [])" by simp
qed

lemma example_transcript: "get_transcript example_env ''vid'' = Inr ''''"
  by (simp add: get_transcript_def example_env_def)

lemma example_request:
  "quiz_request_params example_env [(''cache_id'', JStr ''yt_u_vid''), (''num_questions'', JNum 3)] =
     Inr (3, ''mixed'', 85 / 100)"
  by (simp add: quiz_request_params_def py_int_def py_float_def dict_get_def example_env_def
      MAX_QUESTIONS_PER_QUIZ_def DEFAULT_SIMILARITY_THRESHOLD_def)

lemma str_int_3: "str_int 3 = ''3''"
  by (simp add: str_int_def str_nat.simps)

lemma example_quiz_run:
  "run_generate_quiz example_env [''zz''] 3 ''mixed'' (85 / 100) = Inr ([], [(''zz'', 3)])"
  by (simp add: run_generate_quiz_def generate_quiz_batched single_chunk_batches
      generate_quiz_from_batch_def example_env_def example_llm_def strip_def strip_chars_def
      is_space_def slice_to_def)

lemma example_paths:
  "get_cache_path ''cache'' ''yt_u_vid'' = ''cache/yt_u_vid.json''"
  "get_cache_path ''cache'' ''yt_u_vid_3_mixed'' = ''cache/yt_u_vid_3_mixed.json''"
  by (simp_all add: get_cache_path_def os_path_join_def)

theorem empty_cached_payload_is_a_miss_witness:
  "process_youtube example_env ''cache'' (\<lambda>p. None) ''u''
       [(''url'', JStr ''https://youtu.be/vid'')]
       [''cache/yt_u_vid.json'' \<mapsto> JObj [(''timestamp'', JNum 0), (''data'', JStr [])]] 10 11 =
     (Response 200 [(''message'', JStr ''YouTube transcript processed successfully''),
                    (''cache_id'', JStr ''yt_u_vid''), (''user_id'', JStr ''u'')],
      [''cache/yt_u_vid.json'' \<mapsto> JObj [(''timestamp'', JNum 11), (''data'', JStr [])]],
      [''vid'']) \<and>
   api_generate_quiz example_env ''cache'' (\<lambda>p. None) ''u''
       [(''cache_id'', JStr ''yt_u_vid''), (''num_questions'', JNum 3)]
       [''cache/yt_u_vid.json'' \<mapsto> JObj [(''timestamp'', JNum 0), (''data'', JStr ''zz'')],
        ''cache/yt_u_vid_3_mixed.json'' \<mapsto> JObj [(''timestamp'', JNum 5), (''data'', JArr [])]]
       example_world 10 10 11 =
     (Response 200 [(''message'', JStr ''Quiz generated successfully''),
                    (''quiz'', JArr []), (''user_id'', JStr ''u'')],
      [''cache/yt_u_vid.json'' \<mapsto> JObj [(''timestamp'', JNum 0), (''data'', JStr ''zz'')],
       ''cache/yt_u_vid_3_mixed.json'' \<mapsto> JObj [(''timestamp'', JNum 11), (''data'', JArr [])]],
      example_world, [(''zz'', 3)])"
proof -
  have t: "(10 :: real) - 0 \<le> CACHE_TIMEOUT" "(10 :: real) - 5 \<le> CACHE_TIMEOUT"
    by (simp_all add: CACHE_TIMEOUT_def)
  have v: "extract_video_id example_env ''https://youtu.be/vid'' = Some ''vid''"
    by (simp add: example_env_def)
  let ?fy = "[''cache/yt_u_vid.json'' \<mapsto> JObj [(''timestamp'', JNum 0), (''data'', JStr [])]]"
  have y: "?fy (get_cache_path ''cache'' (''yt_'' @ ''u'' @ ''_'' @ ''vid'')) =
           Some (JObj [(''timestamp'', JNum 0), (''data'', JStr [])])"
    using example_paths by simp
  have sy: "save_to_cache ''cache'' (\<lambda>p. None) ?fy 11 (JStr []) (''yt_'' @ ''u'' @ ''_'' @ ''vid'') =
      Inr [''cache/yt_u_vid.json'' \<mapsto> JObj [(''timestamp'', JNum 11), (''data'', JStr [])]]"
    using example_paths by (simp add: save_to_cache_def)
  let ?fs = "[''cache/yt_u_vid.json'' \<mapsto> JObj [(''timestamp'', JNum 0), (''data'', JStr ''zz'')],
        ''cache/yt_u_vid_3_mixed.json'' \<mapsto> JObj [(''timestamp'', JNum 5), (''data'', JArr [])]]"
  have q: "?fs (get_cache_path ''cache'' (''yt_u_vid'' @ ''_'' @ str_int 3 @ ''_'' @ ''mixed'')) =
           Some (JObj [(''timestamp'', JNum 5), (''data'', JArr [])])"
    using example_paths by (simp add: str_int_3)
  have tr: "?fs (get_cache_path ''cache'' ''yt_u_vid'') =
           Some (JObj [(''timestamp'', JNum 0), (''data'', JStr ''zz'')])"
    using example_paths by simp
  have sq: "save_to_cache ''cache'' (\<lambda>p. None) ?fs 11 (JArr [])
        (''yt_u_vid'' @ ''_'' @ str_int 3 @ ''_'' @ ''mixed'') =
      Inr [''cache/yt_u_vid.json'' \<mapsto> JObj [(''timestamp'', JNum 0), (''data'', JStr ''zz'')],
       ''cache/yt_u_vid_3_mixed.json'' \<mapsto> JObj [(''timestamp'', JNum 11), (''data'', JArr [])]]"
    using example_paths by (simp add: save_to_cache_def str_int_3)
  have sw: "startswith ''yt_u_vid'' (''yt_'' @ ''u'' @ ''_'')" by (simp add: startswith_def)
  from t v y example_transcript
    empty_cached_payload_is_a_miss [where E = example_env and dir = "''cache''"
      and open_w = "\<lambda>p. None" and user_id = "''u''"
      and data = "[(''url'', JStr ''https://youtu.be/vid'')]" and url = "''https://youtu.be/vid''"
      and video_id = "''vid''" and fs = ?fy
      and ts = 0 and payload = "JStr []" and t_get = 10 and t_save = 11 and transcript = "[]"]
  have "process_youtube example_env ''cache'' (\<lambda>p. None) ''u''
       [(''url'', JStr ''https://youtu.be/vid'')] ?fy 10 11 =
     (case save_to_cache ''cache'' (\<lambda>p. None) ?fy 11 (JStr []) (''yt_'' @ ''u'' @ ''_'' @ ''vid'') of
        Inl e \<Rightarrow> (ServerError e, ?fy, [''vid''])
      | Inr fs' \<Rightarrow>
          (Response 200 [(''message'', JStr ''YouTube transcript processed successfully''),
                         (''cache_id'', JStr (''yt_'' @ ''u'' @ ''_'' @ ''vid'')), (''user_id'', JStr ''u'')],
           fs', [''vid'']))"
    by (simp del: append.simps)
  then have 1: "process_youtube example_env ''cache'' (\<lambda>p. None) ''u''
       [(''url'', JStr ''https://youtu.be/vid'')] ?fy 10 11 =
     (Response 200 [(''message'', JStr ''YouTube transcript processed successfully''),
                    (''cache_id'', JStr ''yt_u_vid''), (''user_id'', JStr ''u'')],
      [''cache/yt_u_vid.json'' \<mapsto> JObj [(''timestamp'', JNum 11), (''data'', JStr [])]],
      [''vid''])"
    by (simp only: sy sum.case) simp
  from t q tr sw example_request example_quiz_run
    empty_cached_payload_is_a_miss [where E = example_env and dir = "''cache''"
      and open_w = "\<lambda>p. None" and user_id = "''u''"
      and qdata = "[(''cache_id'', JStr ''yt_u_vid''), (''num_questions'', JNum 3)]"
      and cid = "''yt_u_vid''" and n = 3 and d = "''mixed''" and threshold = "85 / 100"
      and fs = ?fs and ts = 5 and payload = "JArr []" and t_quiz = 10 and t_transcript = 10
      and t_save = 11 and ts' = 0 and ?text = "''zz''" and quiz = "[]" and calls = "[(''zz'', 3)]"
      and w = example_world]
  have "api_generate_quiz example_env ''cache'' (\<lambda>p. None) ''u''
       [(''cache_id'', JStr ''yt_u_vid''), (''num_questions'', JNum 3)] ?fs example_world 10 10 11 =
     (case save_to_cache ''cache'' (\<lambda>p. None) ?fs 11 (JArr [])
             (''yt_u_vid'' @ ''_'' @ str_int 3 @ ''_'' @ ''mixed'') of
        Inl e \<Rightarrow> (ServerError e, ?fs, example_world, [(''zz'', 3)])
      | Inr fs2 \<Rightarrow>
          (Response 200 [(''message'', JStr ''Quiz generated successfully''),
                         (''quiz'', JArr []), (''user_id'', JStr ''u'')],
           fs2, example_world, [(''zz'', 3)]))"
    by (simp del: append.simps)
  then have 2: "api_generate_quiz example_env ''cache'' (\<lambda>p. None) ''u''
       [(''cache_id'', JStr ''yt_u_vid''), (''num_questions'', JNum 3)] ?fs example_world 10 10 11 =
     (Response 200 [(''message'', JStr ''Quiz generated successfully''),
                    (''quiz'', JArr []), (''user_id'', JStr ''u'')],
      [''cache/yt_u_vid.json'' \<mapsto> JObj [(''timestamp'', JNum 0), (''data'', JStr ''zz'')],
       ''cache/yt_u_vid_3_mixed.json'' \<mapsto> JObj [(''timestamp'', JNum 11), (''data'', JArr [])]],
      example_world, [(''zz'', 3)])"
    by (simp only: sq sum.case)
  from 1 2 show ?thesis by (rule conjI)
qed

end
